theory Spec2Isabelle
  imports Complex_Main "HOL-Library.AList"
begin

section \<open>The data model of the simulation engine\<close>

text \<open>
  A shallow embedding of \<^verbatim>\<open>src/core/simulator.ts\<close> (class \<^verbatim>\<open>SimulationEngine\<close>) and of the
  types it uses from \<^verbatim>\<open>types/index.ts\<close> and \<^verbatim>\<open>types/simulation.ts\<close>.

  Conventions. Every record field carries a short prefix naming its record, since the source
  reuses field names (\<^verbatim>\<open>errorRate\<close>, \<^verbatim>\<open>timestamp\<close>, ...) across interfaces. Counters that
  start at 0 and are only incremented are \<^typ>\<open>nat\<close>. Times, latencies and configuration values
  are finite JavaScript numbers, read as \<^typ>\<open>real\<close> (rounding is not modelled). A quantity that
  the source obtains from a division whose divisor can be zero, or from \<^verbatim>\<open>Math.max\<close> of a
  possibly empty argument list, is a \<open>jsnum\<close>, which adds the three IEEE special values.
\<close>

subsection \<open>JavaScript numbers with their special values\<close>

datatype jsnum = Fin real | PosInf | NegInf | NaN

text \<open>\<^verbatim>\<open>a / b\<close> for finite operands (the divisors of the engine are never the negative zero).\<close>

definition js_div :: "real \<Rightarrow> real \<Rightarrow> jsnum" where
  "js_div a b =
     (if b = 0 then (if a = 0 then NaN else if 0 < a then PosInf else NegInf)
      else Fin (a / b))"

text \<open>\<^verbatim>\<open>x / c\<close> and \<^verbatim>\<open>x * c\<close> for a finite \<open>c\<close>.\<close>

fun js_over :: "jsnum \<Rightarrow> real \<Rightarrow> jsnum" where
  "js_over (Fin a) c = js_div a c"
| "js_over PosInf c = (if 0 \<le> c then PosInf else NegInf)"
| "js_over NegInf c = (if 0 \<le> c then NegInf else PosInf)"
| "js_over NaN c = NaN"

fun js_times :: "jsnum \<Rightarrow> real \<Rightarrow> jsnum" where
  "js_times (Fin a) c = Fin (a * c)"
| "js_times PosInf c = (if 0 < c then PosInf else if c < 0 then NegInf else NaN)"
| "js_times NegInf c = (if 0 < c then NegInf else if c < 0 then PosInf else NaN)"
| "js_times NaN c = NaN"

text \<open>\<^verbatim>\<open>Math.min(x, c)\<close> for a finite \<open>c\<close>.\<close>

fun js_min :: "jsnum \<Rightarrow> real \<Rightarrow> jsnum" where
  "js_min (Fin a) c = Fin (min a c)"
| "js_min PosInf c = Fin c"
| "js_min NegInf c = NegInf"
| "js_min NaN c = NaN"

text \<open>The comparisons \<^verbatim>\<open>x > c\<close>, \<^verbatim>\<open>x < c\<close>, \<^verbatim>\<open>x >= c\<close>: false whenever \<open>x\<close> is NaN.\<close>

fun js_gt :: "jsnum \<Rightarrow> real \<Rightarrow> bool" where
  "js_gt (Fin a) c = (c < a)"
| "js_gt PosInf c = True"
| "js_gt NegInf c = False"
| "js_gt NaN c = False"

fun js_lt :: "jsnum \<Rightarrow> real \<Rightarrow> bool" where
  "js_lt (Fin a) c = (a < c)"
| "js_lt PosInf c = False"
| "js_lt NegInf c = True"
| "js_lt NaN c = False"

fun js_ge :: "jsnum \<Rightarrow> real \<Rightarrow> bool" where
  "js_ge (Fin a) c = (c \<le> a)"
| "js_ge PosInf c = True"
| "js_ge NegInf c = False"
| "js_ge NaN c = False"

text \<open>\<^verbatim>\<open>Math.max(x, y)\<close> and \<^verbatim>\<open>Math.max(...xs)\<close>; the latter is \<open>-Infinity\<close> on no arguments.\<close>

fun js_max2 :: "jsnum \<Rightarrow> jsnum \<Rightarrow> jsnum" where
  "js_max2 NaN y = NaN"
| "js_max2 x NaN = NaN"
| "js_max2 PosInf y = PosInf"
| "js_max2 x PosInf = PosInf"
| "js_max2 NegInf y = y"
| "js_max2 x NegInf = x"
| "js_max2 (Fin a) (Fin b) = Fin (max a b)"

definition Math_max :: "jsnum list \<Rightarrow> jsnum" where
  "Math_max xs = foldl js_max2 NegInf xs"

subsection \<open>Graph, configuration, requests, metrics, events\<close>

datatype NodeType =
    CLIENT | API_GATEWAY | LOAD_BALANCER | SERVICE | DATABASE | CACHE
  | QUEUE | PUBSUB | OBJECT_STORAGE | METRICS | RATE_LIMITER | CDN

text \<open>The string value of each enum member, used to build the key of the network matrix.\<close>

fun type_value :: "NodeType \<Rightarrow> string" where
  "type_value CLIENT = ''client''"
| "type_value API_GATEWAY = ''apiGateway''"
| "type_value LOAD_BALANCER = ''loadBalancer''"
| "type_value SERVICE = ''service''"
| "type_value DATABASE = ''database''"
| "type_value CACHE = ''cache''"
| "type_value QUEUE = ''queue''"
| "type_value PUBSUB = ''pubsub''"
| "type_value OBJECT_STORAGE = ''objectStorage''"
| "type_value METRICS = ''metrics''"
| "type_value RATE_LIMITER = ''rateLimiter''"
| "type_value CDN = ''cdn''"

text \<open>\<^verbatim>\<open>SystemNode\<close>: the engine reads \<^verbatim>\<open>id\<close>, \<^verbatim>\<open>data.type\<close> and \<^verbatim>\<open>data.label\<close> only.\<close>

record SystemNode =
  node_id :: string
  node_type :: NodeType
  node_label :: string

record SystemEdge =
  edge_source :: string
  edge_target :: string

datatype SimulationStatus = IDLE | RUNNING | PAUSED | STOPPED | COMPLETED

datatype ConsistencyMode = Strong | Eventual

record SimulationConfig =
  cfg_requestsPerSecond :: real
  cfg_concurrentUsers :: real
  cfg_payloadSize :: real
  cfg_errorRate :: real
  cfg_messageQueueDepth :: real
  cfg_cacheHitRatio :: real
  cfg_dbLatency :: real
  cfg_serviceCpuCost :: real
  cfg_network :: "string \<Rightarrow> real option"
  cfg_autoScaling :: bool
  cfg_failureInjection :: bool
  cfg_consistencyMode :: ConsistencyMode
  cfg_chaosMode :: bool
  cfg_duration :: real
  cfg_tickRate :: real

datatype RequestStatus = Pending | Processing | Completed | Failed

text \<open>
  Request ids are \<^verbatim>\<open>req-N\<close> and event ids \<^verbatim>\<open>evt-N\<close> for the value \<open>N\<close> of a counter; the
  rendering is injective, and the model keeps \<open>N\<close>.
\<close>

record ActiveRequest =
  req_id :: nat
  req_sourceNodeId :: string
  req_targetNodeId :: string
  req_path :: "string list"
  req_startTime :: real
  req_currentLatency :: real
  req_payload :: real
  req_status :: RequestStatus
  req_progress :: jsnum

record NodeMetrics =
  nm_nodeId :: string
  nm_requestsPerSecond :: jsnum
  nm_averageLatency :: real
  nm_successRate :: real
  nm_errorRate :: real
  nm_queueDepth :: nat
  nm_cpuUtilization :: jsnum
  nm_instances :: int
  nm_throughput :: nat
  nm_cacheHitRate :: "real option"
  nm_queryRate :: "nat option"

record SystemMetrics =
  sm_timestamp :: real
  sm_totalRequests :: nat
  sm_successfulRequests :: nat
  sm_failedRequests :: nat
  sm_averageLatency :: real
  sm_requestsPerSecond :: jsnum
  sm_errorRate :: real
  sm_totalQueueDepth :: nat
  sm_activeRequests :: nat
  sm_scalingActions :: nat

text \<open>
  \<^verbatim>\<open>MetricsSnapshot\<close>: \<^verbatim>\<open>system\<close> is a copy of the system metrics. The \<^verbatim>\<open>nodes\<close> map of a
  snapshot is a new \<^verbatim>\<open>Map\<close> over the same \<^verbatim>\<open>NodeMetrics\<close> objects as the live map, whose keys
  never change after construction, so it always reads as the live map does; \<^verbatim>\<open>edges\<close> is
  always empty. Neither is stored in the model.
\<close>

record MetricsSnapshot =
  snap_timestamp :: real
  snap_system :: SystemMetrics

datatype SimulationEventType =
    REQUEST_SENT | REQUEST_RECEIVED | REQUEST_PROCESSED | REQUEST_FAILED
  | CACHE_HIT | CACHE_MISS | DB_QUERY | QUEUE_ENQUEUE | QUEUE_DEQUEUE
  | NODE_OVERLOAD | NODE_SCALED | NODE_FAILURE | NODE_RECOVERY
  | BACKLOG_WARNING | BACKLOG_CLEARED

datatype Severity = Info | Warning | Error | Success

text \<open>
  The message of an event is a template string; the model keeps the template and the
  values substituted into it, in the order of the source text.
\<close>

datatype Message =
    SimulationStarted
  | SimulationPaused
  | SimulationResumed
  | SimulationStopped
  | SimulationCompleted nat
  | RequestSent nat string "string option"
  | RequestFailedAt nat string
  | RequestForwarded nat string "string option"
  | RequestCompleted nat real
  | CacheHit nat
  | CacheMiss nat
  | DbQuery nat real
  | MessageEnqueued nat
  | QueueBacklog nat real
  | ScaledUp string int jsnum
  | ScaledDown string int
  | ChaosLatencySpike

text \<open>
  \<^verbatim>\<open>sourcePath\<close> of an event is either a fresh array literal or the very array held by a
  request (\<^verbatim>\<open>sourcePath: request.path\<close>), which later hops keep extending.
\<close>

datatype PathRef = PathLiteral "string list" | PathOfRequest nat

record SimulationEvent =
  ev_id :: nat
  ev_type :: SimulationEventType
  ev_timestamp :: real
  ev_nodeId :: "string option"
  ev_sourcePath :: "PathRef option"
  ev_targetPath :: "string list option"
  ev_message :: Message
  ev_severity :: Severity

record SimulationState =
  st_status :: SimulationStatus
  st_config :: SimulationConfig
  st_currentTime :: real
  st_activeRequests :: "ActiveRequest list"
  st_nodeMetrics :: "(string \<times> NodeMetrics) list"
  st_systemMetrics :: SystemMetrics
  st_events :: "SimulationEvent list"
  st_metricsHistory :: "MetricsSnapshot list"
  st_speed :: real

text \<open>
  The engine object. \<^verbatim>\<open>nodeMetrics\<close> is a \<^verbatim>\<open>Map\<close>, which iterates in insertion order: an
  association list with \<^const>\<open>AList.update\<close> for \<^verbatim>\<open>set\<close> and \<^const>\<open>map_of\<close> for \<^verbatim>\<open>get\<close>.
  \<^verbatim>\<open>edgeMetrics\<close> is created empty and never written, and the two listener sets belong to
  the host; they are left out. \<open>timers\<close> counts the interval handles the browser has
  given out, and \<open>rand\<close>, \<open>randPos\<close> are the sequence of numbers behind \<^verbatim>\<open>Math.random\<close>
  and the number of draws made so far.
\<close>

record engine =
  state :: SimulationState
  nodes :: "SystemNode list"
  edges :: "SystemEdge list"
  intervalId :: "nat option"
  requestIdCounter :: nat
  eventIdCounter :: nat
  timers :: nat
  rand :: "nat \<Rightarrow> real"
  randPos :: nat

datatype error = TypeError

section \<open>Construction\<close>

definition createEmptySystemMetrics :: SystemMetrics where
  "createEmptySystemMetrics =
     \<lparr> sm_timestamp = 0, sm_totalRequests = 0, sm_successfulRequests = 0,
       sm_failedRequests = 0, sm_averageLatency = 0, sm_requestsPerSecond = Fin 0,
       sm_errorRate = 0, sm_totalQueueDepth = 0, sm_activeRequests = 0,
       sm_scalingActions = 0 \<rparr>"

definition initialNodeMetrics :: "SimulationConfig \<Rightarrow> SystemNode \<Rightarrow> NodeMetrics" where
  "initialNodeMetrics config node =
     \<lparr> nm_nodeId = node_id node, nm_requestsPerSecond = Fin 0, nm_averageLatency = 0,
       nm_successRate = 1, nm_errorRate = 0, nm_queueDepth = 0,
       nm_cpuUtilization = Fin 0, nm_instances = 1, nm_throughput = 0,
       nm_cacheHitRate =
         (if node_type node = CACHE then Some (cfg_cacheHitRatio config) else None),
       nm_queryRate = (if node_type node = DATABASE then Some 0 else None) \<rparr>"

definition initializeState :: "SystemNode list \<Rightarrow> SimulationConfig \<Rightarrow> SimulationState" where
  "initializeState ns config =
     \<lparr> st_status = IDLE, st_config = config, st_currentTime = 0, st_activeRequests = [],
       st_nodeMetrics =
         foldl (\<lambda>m node. AList.update (node_id node) (initialNodeMetrics config node) m) [] ns,
       st_systemMetrics = createEmptySystemMetrics, st_events = [],
       st_metricsHistory = [], st_speed = 1 \<rparr>"

definition newEngine ::
  "SystemNode list \<Rightarrow> SystemEdge list \<Rightarrow> SimulationConfig \<Rightarrow> (nat \<Rightarrow> real) \<Rightarrow> engine" where
  "newEngine ns es config rnd =
     \<lparr> state = initializeState ns config, nodes = ns, edges = es, intervalId = None,
       requestIdCounter = 0, eventIdCounter = 0, timers = 0, rand = rnd, randPos = 0 \<rparr>"

section \<open>Primitives\<close>

text \<open>
  \<^verbatim>\<open>Math.random()\<close> returns a number in \<open>[0, 1)\<close>: the next element of the sequence,
  reduced to its fractional part, so that every sequence is a legal source of draws.
\<close>

definition Math_random :: "engine \<Rightarrow> real \<times> engine" where
  "Math_random e = (frac (rand e (randPos e)), e\<lparr>randPos := Suc (randPos e)\<rparr>)"

definition getNodeById :: "engine \<Rightarrow> string \<Rightarrow> SystemNode option" where
  "getNodeById e i = find (\<lambda>n. node_id n = i) (nodes e)"

definition generateRequestId :: "engine \<Rightarrow> nat \<times> engine" where
  "generateRequestId e = (requestIdCounter e, e\<lparr>requestIdCounter := Suc (requestIdCounter e)\<rparr>)"

definition generateEventId :: "engine \<Rightarrow> nat \<times> engine" where
  "generateEventId e = (eventIdCounter e, e\<lparr>eventIdCounter := Suc (eventIdCounter e)\<rparr>)"

definition emitEvent :: "SimulationEvent \<Rightarrow> engine \<Rightarrow> engine" where
  "emitEvent ev e = e\<lparr>state := (state e)\<lparr>st_events := st_events (state e) @ [ev]\<rparr>\<rparr>"

text \<open>The four lifecycle events differ in their message only.\<close>

definition lifecycleEvent :: "nat \<Rightarrow> real \<Rightarrow> Message \<Rightarrow> Severity \<Rightarrow> SimulationEvent" where
  "lifecycleEvent i t msg sev =
     \<lparr> ev_id = i, ev_type = REQUEST_SENT, ev_timestamp = t, ev_nodeId = None,
       ev_sourcePath = None, ev_targetPath = None, ev_message = msg, ev_severity = sev \<rparr>"

definition setStatus :: "SimulationStatus \<Rightarrow> engine \<Rightarrow> engine" where
  "setStatus s e = e\<lparr>state := (state e)\<lparr>st_status := s\<rparr>\<rparr>"

text \<open>\<^verbatim>\<open>clearInterval\<close> of the handle when there is one.\<close>

definition clearIntervalId :: "engine \<Rightarrow> engine" where
  "clearIntervalId e = (if intervalId e \<noteq> None then e\<lparr>intervalId := None\<rparr> else e)"

text \<open>
  \<^verbatim>\<open>runSimulationLoop\<close> registers the interval callback and stores the new handle. The
  period \<^verbatim>\<open>tickRate / speed\<close> is wall-clock time and has no counterpart here.
\<close>

definition runSimulationLoop :: "engine \<Rightarrow> engine" where
  "runSimulationLoop e = e\<lparr>intervalId := Some (timers e), timers := Suc (timers e)\<rparr>"

section \<open>Lifecycle\<close>

definition start :: "engine \<Rightarrow> engine" where
  "start e =
     (if st_status (state e) = RUNNING then e
      else
        let e1 = setStatus RUNNING e;
            (i, e2) = generateEventId e1;
            e3 = emitEvent (lifecycleEvent i (st_currentTime (state e2)) SimulationStarted Info) e2
        in runSimulationLoop e3)"

definition pause :: "engine \<Rightarrow> engine" where
  "pause e =
     (if st_status (state e) \<noteq> RUNNING then e
      else
        let e1 = setStatus PAUSED e;
            e2 = clearIntervalId e1;
            (i, e3) = generateEventId e2
        in emitEvent (lifecycleEvent i (st_currentTime (state e3)) SimulationPaused Info) e3)"

definition resume :: "engine \<Rightarrow> engine" where
  "resume e =
     (if st_status (state e) \<noteq> PAUSED then e
      else
        let e1 = setStatus RUNNING e;
            (i, e2) = generateEventId e1;
            e3 = emitEvent (lifecycleEvent i (st_currentTime (state e2)) SimulationResumed Info) e2
        in runSimulationLoop e3)"

definition stop :: "engine \<Rightarrow> engine" where
  "stop e =
     (let e1 = setStatus STOPPED e;
          e2 = clearIntervalId e1;
          (i, e3) = generateEventId e2
      in emitEvent (lifecycleEvent i (st_currentTime (state e3)) SimulationStopped Info) e3)"

definition setSpeed :: "real \<Rightarrow> engine \<Rightarrow> engine" where
  "setSpeed speed e =
     (let wasRunning = (st_status (state e) = RUNNING);
          e1 = (if wasRunning then pause e else e);
          e2 = e1\<lparr>state := (state e1)\<lparr>st_speed := speed\<rparr>\<rparr>
      in if wasRunning then resume e2 else e2)"

definition complete :: "engine \<Rightarrow> engine" where
  "complete e =
     (if st_status (state e) = COMPLETED then e
      else
        let e1 = stop e;
            e2 = setStatus COMPLETED e1;
            (i, e3) = generateEventId e2
        in emitEvent
             (lifecycleEvent i (st_currentTime (state e3))
                (SimulationCompleted (sm_totalRequests (st_systemMetrics (state e3)))) Success)
             e3)"

section \<open>The tick\<close>

subsection \<open>Request generation\<close>

text \<open>\<^verbatim>\<open>xs[Math.floor(r * xs.length)]\<close> for a draw \<open>r\<close>; in range when \<open>xs\<close> is not empty.\<close>

definition pick :: "'a list \<Rightarrow> real \<Rightarrow> 'a" where
  "pick xs r = xs ! nat \<lfloor>r * real (length xs)\<rfloor>"

definition incTotalRequests :: "engine \<Rightarrow> engine" where
  "incTotalRequests e =
     e\<lparr>state := (state e)\<lparr>st_systemMetrics :=
          (st_systemMetrics (state e))
            \<lparr>sm_totalRequests := Suc (sm_totalRequests (st_systemMetrics (state e)))\<rparr>\<rparr>\<rparr>"

definition pushRequest :: "ActiveRequest \<Rightarrow> engine \<Rightarrow> engine" where
  "pushRequest r e =
     e\<lparr>state := (state e)\<lparr>st_activeRequests := st_activeRequests (state e) @ [r]\<rparr>\<rparr>"

text \<open>One iteration of the \<^verbatim>\<open>for\<close> loop of \<^verbatim>\<open>generateRequests\<close>.\<close>

definition generateOne :: "SystemNode list \<Rightarrow> engine \<Rightarrow> engine" where
  "generateOne clientNodes e =
     (let (r1, e1) = Math_random e;
          clientNode = pick clientNodes r1;
          targetEdges = filter (\<lambda>ed. edge_source ed = node_id clientNode) (edges e1)
      in if targetEdges = [] then e1
         else
           let (r2, e2) = Math_random e1;
               targetEdge = pick targetEdges r2;
               targetNodeId = edge_target targetEdge;
               (rid, e3) = generateRequestId e2;
               request =
                 \<lparr> req_id = rid, req_sourceNodeId = node_id clientNode,
                   req_targetNodeId = targetNodeId, req_path = [node_id clientNode],
                   req_startTime = st_currentTime (state e3), req_currentLatency = 0,
                   req_payload = cfg_payloadSize (st_config (state e3)),
                   req_status = Pending, req_progress = Fin 0 \<rparr>;
               e4 = incTotalRequests (pushRequest request e3);
               (i, e5) = generateEventId e4
           in emitEvent
                \<lparr> ev_id = i, ev_type = REQUEST_SENT,
                  ev_timestamp = st_currentTime (state e5),
                  ev_nodeId = Some (node_id clientNode),
                  ev_sourcePath = Some (PathLiteral [node_id clientNode]),
                  ev_targetPath = Some [targetNodeId],
                  ev_message =
                    RequestSent rid (node_label clientNode)
                      (map_option node_label (getNodeById e5 targetNodeId)),
                  ev_severity = Info \<rparr>
                e5)"

fun generateLoop :: "nat \<Rightarrow> SystemNode list \<Rightarrow> engine \<Rightarrow> engine" where
  "generateLoop 0 clientNodes e = e"
| "generateLoop (Suc n) clientNodes e = generateLoop n clientNodes (generateOne clientNodes e)"

definition generateRequests :: "engine \<Rightarrow> engine" where
  "generateRequests e =
     (let clientNodes = filter (\<lambda>n. node_type n = CLIENT) (nodes e)
      in if clientNodes = [] then e
         else
           let requestsThisTick =
                 (cfg_requestsPerSecond (st_config (state e)) * cfg_tickRate (st_config (state e)))
                   / 1000;
               (r, e1) = Math_random e;
               requestsToGenerate = \<lfloor>requestsThisTick + r\<rfloor>
           in generateLoop (nat requestsToGenerate) clientNodes e1)"

subsection \<open>Latencies and routing\<close>

text \<open>
  The separator that the template literal of \<^verbatim>\<open>getNetworkLatency\<close> puts between the two
  type names of a network key: the three characters U+00E2, U+2020, U+2019 of the source
  file, as their UTF-8 bytes \<open>C3 A2 E2 80 A0 E2 80 99\<close>.
\<close>

definition arrow :: string where
  "arrow = [CHR 0xC3, CHR 0xA2, CHR 0xE2, CHR 0x80, CHR 0xA0, CHR 0xE2, CHR 0x80, CHR 0x99]"

definition getNetworkLatency :: "engine \<Rightarrow> string \<Rightarrow> string \<Rightarrow> real" where
  "getNetworkLatency e sourceId targetId =
     (case getNodeById e sourceId of
        None \<Rightarrow> 10
      | Some sourceNode \<Rightarrow>
          (case getNodeById e targetId of
             None \<Rightarrow> 10
           | Some targetNode \<Rightarrow>
               (case cfg_network (st_config (state e))
                       (type_value (node_type sourceNode) @ arrow @ type_value (node_type targetNode)) of
                  None \<Rightarrow> 10
                | Some v \<Rightarrow> if v = 0 then 10 else v)))"

definition getProcessingLatency :: "engine \<Rightarrow> SystemNode \<Rightarrow> real" where
  "getProcessingLatency e node =
     (case node_type node of
        DATABASE \<Rightarrow> cfg_dbLatency (st_config (state e))
      | CACHE \<Rightarrow> 2
      | QUEUE \<Rightarrow> 5
      | SERVICE \<Rightarrow> cfg_serviceCpuCost (st_config (state e))
      | _ \<Rightarrow> 5)"

definition findNextHop :: "engine \<Rightarrow> string \<Rightarrow> ActiveRequest \<Rightarrow> string option" where
  "findNextHop e currentNodeId request =
     (let outgoingEdges = filter (\<lambda>ed. edge_source ed = currentNodeId) (edges e);
          unvisitedEdges = filter (\<lambda>ed. edge_target ed \<notin> set (req_path request)) outgoingEdges
      in case unvisitedEdges of [] \<Rightarrow> None | ed # _ \<Rightarrow> Some (edge_target ed))"

subsection \<open>Node processing\<close>

definition nodeEvent ::
  "nat \<Rightarrow> SimulationEventType \<Rightarrow> real \<Rightarrow> string \<Rightarrow> Message \<Rightarrow> Severity \<Rightarrow> SimulationEvent" where
  "nodeEvent i ty t nodeId msg sev =
     \<lparr> ev_id = i, ev_type = ty, ev_timestamp = t, ev_nodeId = Some nodeId,
       ev_sourcePath = None, ev_targetPath = None, ev_message = msg, ev_severity = sev \<rparr>"

text \<open>\<^verbatim>\<open>this.emitEvent({ id: this.generateEventId(), ..., nodeId, message, severity })\<close>.\<close>

definition emitNodeEvent ::
  "SimulationEventType \<Rightarrow> string \<Rightarrow> Message \<Rightarrow> Severity \<Rightarrow> engine \<Rightarrow> engine" where
  "emitNodeEvent ty nodeId msg sev e =
     (let (i, e1) = generateEventId e
      in emitEvent (nodeEvent i ty (st_currentTime (state e1)) nodeId msg sev) e1)"

definition setNodeMetrics :: "(string \<times> NodeMetrics) list \<Rightarrow> engine \<Rightarrow> engine" where
  "setNodeMetrics ms e = e\<lparr>state := (state e)\<lparr>st_nodeMetrics := ms\<rparr>\<rparr>"

text \<open>
  The \<^verbatim>\<open>switch\<close> of \<^verbatim>\<open>handleNodeProcessing\<close>: the metrics object after the branch, and the
  engine after the events of the branch.
\<close>

definition nodeTypeEffects ::
  "SystemNode \<Rightarrow> ActiveRequest \<Rightarrow> NodeMetrics \<Rightarrow> engine \<Rightarrow> NodeMetrics \<times> engine" where
  "nodeTypeEffects node request metrics e =
     (case node_type node of
        CACHE \<Rightarrow>
          (let (x, e1) = Math_random e
           in if x < cfg_cacheHitRatio (st_config (state e1))
              then (metrics, emitNodeEvent CACHE_HIT (node_id node) (CacheHit (req_id request)) Success e1)
              else (metrics, emitNodeEvent CACHE_MISS (node_id node) (CacheMiss (req_id request)) Warning e1))
      | DATABASE \<Rightarrow>
          (metrics\<lparr>nm_queryRate :=
              Some (Suc (case nm_queryRate metrics of None \<Rightarrow> 0 | Some q \<Rightarrow> q))\<rparr>,
           emitNodeEvent DB_QUERY (node_id node)
             (DbQuery (req_id request) (cfg_dbLatency (st_config (state e)))) Info e)
      | QUEUE \<Rightarrow>
          (let m = metrics\<lparr>nm_queueDepth := Suc (nm_queueDepth metrics)\<rparr>;
               e1 = emitNodeEvent QUEUE_ENQUEUE (node_id node) (MessageEnqueued (nm_queueDepth m)) Info e
           in if cfg_messageQueueDepth (st_config (state e1)) * (8 / 10) < real (nm_queueDepth m)
              then (m, emitNodeEvent BACKLOG_WARNING (node_id node)
                         (QueueBacklog (nm_queueDepth m) (cfg_messageQueueDepth (st_config (state e1))))
                         Warning e1)
              else (m, e1))
      | _ \<Rightarrow> (metrics, e))"

definition handleNodeProcessing :: "SystemNode \<Rightarrow> ActiveRequest \<Rightarrow> engine \<Rightarrow> engine" where
  "handleNodeProcessing node request e =
     (case map_of (st_nodeMetrics (state e)) (node_id node) of
        None \<Rightarrow> e
      | Some metrics \<Rightarrow>
          let m1 = metrics\<lparr>nm_throughput := Suc (nm_throughput metrics)\<rparr>;
              (m2, e1) = nodeTypeEffects node request m1 e;
              rps = js_div (real (nm_throughput m2)) (st_currentTime (state e1) / 1000);
              m3 = m2\<lparr>nm_requestsPerSecond := rps,
                      nm_cpuUtilization :=
                        js_min (js_times (js_over rps 100) (of_int (nm_instances m2))) 1\<rparr>
          in setNodeMetrics (AList.update (node_id node) m3 (st_nodeMetrics (state e1))) e1)"

subsection \<open>Request processing\<close>

definition setSystemMetrics :: "SystemMetrics \<Rightarrow> engine \<Rightarrow> engine" where
  "setSystemMetrics sm e = e\<lparr>state := (state e)\<lparr>st_systemMetrics := sm\<rparr>\<rparr>"

definition incFailedRequests :: "engine \<Rightarrow> engine" where
  "incFailedRequests e =
     setSystemMetrics
       ((st_systemMetrics (state e))
          \<lparr>sm_failedRequests := Suc (sm_failedRequests (st_systemMetrics (state e)))\<rparr>) e"

definition incSuccessfulRequests :: "engine \<Rightarrow> engine" where
  "incSuccessfulRequests e =
     setSystemMetrics
       ((st_systemMetrics (state e))
          \<lparr>sm_successfulRequests := Suc (sm_successfulRequests (st_systemMetrics (state e)))\<rparr>) e"

text \<open>Called right after the increment of \<^verbatim>\<open>successfulRequests\<close>, so \<open>count\<close> is at least 1.\<close>

definition updateLatencyMetrics :: "real \<Rightarrow> engine \<Rightarrow> engine" where
  "updateLatencyMetrics latency e =
     (let count = real (sm_successfulRequests (st_systemMetrics (state e)));
          currentAvg = sm_averageLatency (st_systemMetrics (state e))
      in setSystemMetrics
           ((st_systemMetrics (state e))
              \<lparr>sm_averageLatency := (currentAvg * (count - 1) + latency) / count\<rparr>) e)"

definition requestEvent ::
  "nat \<Rightarrow> SimulationEventType \<Rightarrow> real \<Rightarrow> string \<Rightarrow> nat \<Rightarrow> string list option \<Rightarrow> Message
     \<Rightarrow> Severity \<Rightarrow> SimulationEvent" where
  "requestEvent i ty t nodeId rid tp msg sev =
     \<lparr> ev_id = i, ev_type = ty, ev_timestamp = t, ev_nodeId = Some nodeId,
       ev_sourcePath = Some (PathOfRequest rid), ev_targetPath = tp, ev_message = msg,
       ev_severity = sev \<rparr>"

definition emitRequestEvent ::
  "SimulationEventType \<Rightarrow> string \<Rightarrow> nat \<Rightarrow> string list option \<Rightarrow> Message \<Rightarrow> Severity
     \<Rightarrow> engine \<Rightarrow> engine" where
  "emitRequestEvent ty nodeId rid tp msg sev e =
     (let (i, e1) = generateEventId e
      in emitEvent (requestEvent i ty (st_currentTime (state e1)) nodeId rid tp msg sev) e1)"

text \<open>
  What happens to a request whose hop is finished (\<^verbatim>\<open>progress >= 1\<close>), after its target has
  been appended to its path. \<^verbatim>\<open>if (nextHop)\<close> is false for \<^verbatim>\<open>null\<close> and for the empty string.
\<close>

definition arriveAtNode :: "SystemNode \<Rightarrow> ActiveRequest \<Rightarrow> engine \<Rightarrow> ActiveRequest \<times> engine" where
  "arriveAtNode targetNode request e =
     (let (x, e1) = Math_random e
      in if x < cfg_errorRate (st_config (state e1))
         then (request\<lparr>req_status := Failed\<rparr>,
               emitRequestEvent REQUEST_FAILED (node_id targetNode) (req_id request) None
                 (RequestFailedAt (req_id request) (node_label targetNode)) Error
                 (incFailedRequests e1))
         else
           let e2 = handleNodeProcessing targetNode request e1;
               nextHop = findNextHop e2 (node_id targetNode) request
           in if nextHop \<noteq> None \<and> nextHop \<noteq> Some []
              then (request\<lparr>req_targetNodeId := the nextHop, req_currentLatency := 0,
                            req_progress := Fin 0, req_status := Processing\<rparr>,
                    emitRequestEvent REQUEST_PROCESSED (node_id targetNode) (req_id request)
                      (Some [the nextHop])
                      (RequestForwarded (req_id request) (node_label targetNode)
                         (map_option node_label (getNodeById e2 (the nextHop)))) Info e2)
              else
                let e3 = incSuccessfulRequests e2;
                    totalLatency = st_currentTime (state e3) - req_startTime request;
                    e4 = updateLatencyMetrics totalLatency e3
                in (request\<lparr>req_status := Completed\<rparr>,
                    emitRequestEvent REQUEST_PROCESSED (node_id targetNode) (req_id request) None
                      (RequestCompleted (req_id request) totalLatency) Success e4))"

text \<open>
  The body of the \<^verbatim>\<open>forEach\<close> of \<^verbatim>\<open>processRequests\<close> for a request that is neither completed
  nor failed. \<^verbatim>\<open>request.path[request.path.length - 1]\<close> of an empty path is \<^verbatim>\<open>undefined\<close>,
  which is no node's id, so the network latency is then the fallback.
\<close>

definition processRequest :: "real \<Rightarrow> ActiveRequest \<Rightarrow> engine \<Rightarrow> ActiveRequest \<times> engine" where
  "processRequest deltaTime request e =
     (case getNodeById e (req_targetNodeId request) of
        None \<Rightarrow> (request\<lparr>req_status := Failed\<rparr>, incFailedRequests e)
      | Some targetNode \<Rightarrow>
          let networkLatency =
                (if req_path request = [] then 10
                 else getNetworkLatency e (last (req_path request)) (req_targetNodeId request));
              processingLatency = getProcessingLatency e targetNode;
              totalLatency = networkLatency + processingLatency;
              r1 = request\<lparr>req_currentLatency := req_currentLatency request + deltaTime\<rparr>;
              r2 = r1\<lparr>req_progress := js_min (js_div (req_currentLatency r1) totalLatency) 1\<rparr>
          in if js_ge (req_progress r2) 1
             then arriveAtNode targetNode (r2\<lparr>req_path := req_path r2 @ [req_targetNodeId r2]\<rparr>) e
             else (r2, e))"

text \<open>
  The \<^verbatim>\<open>forEach\<close>: the requests as the callback leaves them, the ids pushed to
  \<^verbatim>\<open>completedRequests\<close>, and the engine.
\<close>

fun processEach ::
  "real \<Rightarrow> ActiveRequest list \<Rightarrow> engine \<Rightarrow> ActiveRequest list \<times> nat list \<times> engine" where
  "processEach deltaTime [] e = ([], [], e)"
| "processEach deltaTime (r # rs) e =
     (if req_status r = Completed \<or> req_status r = Failed
      then (let (rs', completedRequests, e') = processEach deltaTime rs e
            in (r # rs', req_id r # completedRequests, e'))
      else (let (r', e1) = processRequest deltaTime r e;
                (rs', completedRequests, e') = processEach deltaTime rs e1
            in (r' # rs', completedRequests, e')))"

definition setActiveRequests :: "ActiveRequest list \<Rightarrow> engine \<Rightarrow> engine" where
  "setActiveRequests rs e = e\<lparr>state := (state e)\<lparr>st_activeRequests := rs\<rparr>\<rparr>"

definition processRequests :: "real \<Rightarrow> engine \<Rightarrow> engine" where
  "processRequests deltaTime e =
     (let (rs, completedRequests, e') = processEach deltaTime (st_activeRequests (state e)) e
      in setActiveRequests (filter (\<lambda>r. req_id r \<notin> set completedRequests) rs) e')"

subsection \<open>Metrics, scaling, chaos, snapshots\<close>

definition updateMetrics :: "engine \<Rightarrow> engine" where
  "updateMetrics e =
     (let st = state e;
          sm = st_systemMetrics st;
          sm1 = sm\<lparr>sm_timestamp := st_currentTime st,
                   sm_activeRequests := length (st_activeRequests st),
                   sm_requestsPerSecond :=
                     js_div (real (sm_totalRequests sm)) (st_currentTime st / 1000)\<rparr>;
          sm2 = (if 0 < sm_totalRequests sm1
                 then sm1\<lparr>sm_errorRate :=
                            real (sm_failedRequests sm1) / real (sm_totalRequests sm1)\<rparr>
                 else sm1);
          totalQueueDepth = sum_list (map (\<lambda>(k, m). nm_queueDepth m) (st_nodeMetrics st));
          ms = map (\<lambda>(k, m). (k, if 0 < nm_throughput m
                                   then m\<lparr>nm_successRate := 1 - nm_errorRate m\<rparr> else m))
                 (st_nodeMetrics st)
      in setNodeMetrics ms (setSystemMetrics (sm2\<lparr>sm_totalQueueDepth := totalQueueDepth\<rparr>) e))"

definition incScalingActions :: "engine \<Rightarrow> engine" where
  "incScalingActions e =
     setSystemMetrics
       ((st_systemMetrics (state e))
          \<lparr>sm_scalingActions := Suc (sm_scalingActions (st_systemMetrics (state e)))\<rparr>) e"

text \<open>The scale-up and the scale-down statement of the callback of \<^verbatim>\<open>checkAutoScaling\<close>.\<close>

definition scaleUp :: "string \<Rightarrow> SystemNode \<Rightarrow> NodeMetrics \<Rightarrow> engine \<Rightarrow> NodeMetrics \<times> engine" where
  "scaleUp nodeId node metrics e =
     (if js_gt (nm_cpuUtilization metrics) (8 / 10) \<and> nm_instances metrics < 10
      then
        let m = metrics\<lparr>nm_instances := nm_instances metrics + 1\<rparr>;
            e1 = incScalingActions e;
            e2 = emitNodeEvent NODE_SCALED nodeId
                   (ScaledUp (node_label node) (nm_instances m) (nm_cpuUtilization m)) Success e1
        in (m\<lparr>nm_cpuUtilization := js_times (nm_cpuUtilization m) (8 / 10)\<rparr>, e2)
      else (metrics, e))"

definition scaleDown :: "string \<Rightarrow> SystemNode \<Rightarrow> NodeMetrics \<Rightarrow> engine \<Rightarrow> NodeMetrics \<times> engine" where
  "scaleDown nodeId node metrics e =
     (if js_lt (nm_cpuUtilization metrics) (3 / 10) \<and> 1 < nm_instances metrics
      then
        let m = metrics\<lparr>nm_instances := nm_instances metrics - 1\<rparr>;
            e1 = incScalingActions e;
            e2 = emitNodeEvent NODE_SCALED nodeId
                   (ScaledDown (node_label node) (nm_instances m)) Info e1
        in (m\<lparr>nm_cpuUtilization := js_times (nm_cpuUtilization m) (12 / 10)\<rparr>, e2)
      else (metrics, e))"

definition scaleNode :: "string \<Rightarrow> NodeMetrics \<Rightarrow> engine \<Rightarrow> NodeMetrics \<times> engine" where
  "scaleNode nodeId metrics e =
     (case getNodeById e nodeId of
        None \<Rightarrow> (metrics, e)
      | Some node \<Rightarrow>
          if node_type node \<noteq> SERVICE then (metrics, e)
          else
            let (m1, e1) = scaleUp nodeId node metrics e
            in scaleDown nodeId node m1 e1)"

text \<open>
  \<^verbatim>\<open>nodeMetrics.forEach\<close>: the callback changes the metrics object it is given, the system
  metrics and the event log, never the map itself.
\<close>

fun scaleEach ::
  "(string \<times> NodeMetrics) list \<Rightarrow> engine \<Rightarrow> (string \<times> NodeMetrics) list \<times> engine" where
  "scaleEach [] e = ([], e)"
| "scaleEach ((nodeId, metrics) # rest) e =
     (let (m, e1) = scaleNode nodeId metrics e;
          (rest', e2) = scaleEach rest e1
      in ((nodeId, m) # rest', e2))"

definition checkAutoScaling :: "engine \<Rightarrow> engine" where
  "checkAutoScaling e =
     (let (ms, e1) = scaleEach (st_nodeMetrics (state e)) e in setNodeMetrics ms e1)"

text \<open>
  \<^verbatim>\<open>this.nodes[...].id\<close> throws a \<^verbatim>\<open>TypeError\<close> when there is no node. The engine that the
  exception leaves behind is returned beside it.
\<close>

definition applyChaosEffects :: "engine \<Rightarrow> error option \<times> engine" where
  "applyChaosEffects e =
     (let (x, e1) = Math_random e
      in if x < 5 / 100
         then
           let (y, e2) = Math_random e1
           in if nodes e2 = [] then (Some TypeError, e2)
              else (None, emitNodeEvent NODE_OVERLOAD (node_id (pick (nodes e2) y))
                            ChaosLatencySpike Warning e2)
         else (None, e1))"

definition takeMetricsSnapshot :: "engine \<Rightarrow> engine" where
  "takeMetricsSnapshot e =
     e\<lparr>state := (state e)\<lparr>st_metricsHistory :=
          st_metricsHistory (state e) @
            [\<lparr> snap_timestamp = st_currentTime (state e),
               snap_system = st_systemMetrics (state e) \<rparr>]\<rparr>\<rparr>"

definition advanceTime :: "real \<Rightarrow> engine \<Rightarrow> engine" where
  "advanceTime deltaTime e =
     e\<lparr>state := (state e)\<lparr>st_currentTime := st_currentTime (state e) + deltaTime\<rparr>\<rparr>"

text \<open>
  \<^verbatim>\<open>tick\<close>. \<^verbatim>\<open>currentTime % 1000 === 0\<close> holds when the time is a whole number of seconds.
  The closing \<^verbatim>\<open>emitMetrics\<close> only calls the host's listeners.
\<close>

definition tick :: "engine \<Rightarrow> error option \<times> engine" where
  "tick e =
     (let deltaTime = cfg_tickRate (st_config (state e));
          e1 = advanceTime deltaTime e;
          e2 = generateRequests e1;
          e3 = processRequests deltaTime e2;
          e4 = updateMetrics e3;
          e5 = (if cfg_autoScaling (st_config (state e4)) then checkAutoScaling e4 else e4);
          (err, e6) = (if cfg_chaosMode (st_config (state e5)) then applyChaosEffects e5
                       else (None, e5))
      in if err \<noteq> None then (err, e6)
         else (None, if frac (st_currentTime (state e6) / 1000) = 0
                     then takeMetricsSnapshot e6 else e6))"

text \<open>The callback that \<^verbatim>\<open>runSimulationLoop\<close> hands to \<^verbatim>\<open>setInterval\<close>.\<close>

definition intervalCallback :: "engine \<Rightarrow> error option \<times> engine" where
  "intervalCallback e =
     (if st_status (state e) \<noteq> RUNNING then (None, e)
      else
        let (err, e1) = tick e
        in if err \<noteq> None then (err, e1)
           else (None, if cfg_duration (st_config (state e1)) * 1000 \<le> st_currentTime (state e1)
                       then complete e1 else e1))"

section \<open>Analysis\<close>

datatype BottleneckSeverity = Low | Medium | High | Critical

record BottleneckMetrics =
  bm_avgLatency :: real
  bm_maxQueueDepth :: nat
  bm_errorRate :: real
  bm_cpuUtilization :: jsnum

record BottleneckAnalysis =
  ba_nodeId :: string
  ba_nodeName :: string
  ba_severity :: BottleneckSeverity
  ba_issues :: "string list"
  ba_metrics :: BottleneckMetrics
  ba_recommendations :: "string list"

fun severityOrder :: "BottleneckSeverity \<Rightarrow> int" where
  "severityOrder Critical = 4"
| "severityOrder High = 3"
| "severityOrder Medium = 2"
| "severityOrder Low = 1"

text \<open>
  The three checks of one node, each extending the issues, the severity and the
  recommendations gathered so far.
\<close>

definition cpuCheck ::
  "NodeMetrics \<Rightarrow> string list \<times> BottleneckSeverity \<times> string list
     \<Rightarrow> string list \<times> BottleneckSeverity \<times> string list" where
  "cpuCheck metrics acc =
     (case acc of (issues, severity, recs) \<Rightarrow>
        if js_gt (nm_cpuUtilization metrics) (9 / 10)
        then (issues @ [''CPU utilization critically high''], Critical,
              recs @ [''Add more instances or horizontal scaling''])
        else if js_gt (nm_cpuUtilization metrics) (7 / 10)
        then (issues @ [''CPU utilization high''],
              (if severity = Low then Medium else severity),
              recs @ [''Consider adding auto-scaling''])
        else acc)"

definition queueCheck ::
  "SimulationConfig \<Rightarrow> NodeMetrics \<Rightarrow> string list \<times> BottleneckSeverity \<times> string list
     \<Rightarrow> string list \<times> BottleneckSeverity \<times> string list" where
  "queueCheck config metrics acc =
     (case acc of (issues, severity, recs) \<Rightarrow>
        if cfg_messageQueueDepth config * (8 / 10) < real (nm_queueDepth metrics)
        then (issues @ [''Queue depth near capacity''], High,
              recs @ [''Increase queue capacity or add more workers''])
        else acc)"

definition errorCheck ::
  "NodeMetrics \<Rightarrow> string list \<times> BottleneckSeverity \<times> string list
     \<Rightarrow> string list \<times> BottleneckSeverity \<times> string list" where
  "errorCheck metrics acc =
     (case acc of (issues, severity, recs) \<Rightarrow>
        if 1 / 10 < nm_errorRate metrics
        then (issues @ [''High error rate detected''], Critical,
              recs @ [''Investigate error sources and add retry logic''])
        else acc)"

text \<open>The callback of the \<^verbatim>\<open>forEach\<close> of \<^verbatim>\<open>analyzeBottlenecks\<close>: the entries it pushes.\<close>

definition analyzeNode :: "engine \<Rightarrow> string \<Rightarrow> NodeMetrics \<Rightarrow> BottleneckAnalysis list" where
  "analyzeNode e nodeId metrics =
     (case getNodeById e nodeId of
        None \<Rightarrow> []
      | Some node \<Rightarrow>
          (case errorCheck metrics
                  (queueCheck (st_config (state e)) metrics (cpuCheck metrics ([], Low, []))) of
             (issues, severity, recs) \<Rightarrow>
               if issues \<noteq> []
               then [\<lparr> ba_nodeId = nodeId, ba_nodeName = node_label node,
                       ba_severity = severity, ba_issues = issues,
                       ba_metrics =
                         \<lparr> bm_avgLatency = nm_averageLatency metrics,
                           bm_maxQueueDepth = nm_queueDepth metrics,
                           bm_errorRate = nm_errorRate metrics,
                           bm_cpuUtilization = nm_cpuUtilization metrics \<rparr>,
                       ba_recommendations = recs \<rparr>]
               else []))"

text \<open>
  \<^verbatim>\<open>Array.prototype.sort\<close> is stable; with the comparator of the source it orders by
  descending rank, as the stable insertion sort \<^const>\<open>sort_key\<close> does on the negated rank.
\<close>

definition analyzeBottlenecks :: "engine \<Rightarrow> BottleneckAnalysis list" where
  "analyzeBottlenecks e =
     sort_key (\<lambda>b. - severityOrder (ba_severity b))
       (concat (map (\<lambda>(nodeId, metrics). analyzeNode e nodeId metrics) (st_nodeMetrics (state e))))"

text \<open>
  The four global recommendations. Each starts with a few non-ASCII characters in the
  source file, written here as the UTF-8 bytes that the file holds.
\<close>

definition recPerformingWell :: string where
  "recPerformingWell =
     [CHR 0xC3, CHR 0xA2, CHR 0xC5, CHR 0x93, CHR 0xE2, CHR 0x80, CHR 0xA6]
       @ '' System is performing well under current load''"

definition recCritical :: string where
  "recCritical =
     [CHR 0xC3, CHR 0xB0, CHR 0xC5, CHR 0xB8, CHR 0xE2, CHR 0x80, CHR 0x9D, CHR 0xC2, CHR 0xB4]
       @ '' Critical issues detected - immediate action required''"

definition recAddCache :: string where
  "recAddCache =
     [CHR 0xC3, CHR 0xB0, CHR 0xC5, CHR 0xB8, CHR 0xE2, CHR 0x80, CHR 0x99, CHR 0xC2, CHR 0xA1]
       @ '' Consider adding a cache layer to reduce database load''"

definition recAddLoadBalancer :: string where
  "recAddLoadBalancer =
     [CHR 0xC3, CHR 0xB0, CHR 0xC5, CHR 0xB8, CHR 0xE2, CHR 0x80, CHR 0x99, CHR 0xC2, CHR 0xA1]
       @ '' Add a load balancer to distribute traffic evenly''"

definition generateRecommendations :: "engine \<Rightarrow> BottleneckAnalysis list \<Rightarrow> string list" where
  "generateRecommendations e bottlenecks =
     (if bottlenecks = [] then [recPerformingWell] else [])
     @ (if list_ex (\<lambda>b. ba_severity b = Critical) bottlenecks then [recCritical] else [])
     @ (if \<not> list_ex (\<lambda>n. node_type n = CACHE) (nodes e) then [recAddCache] else [])
     @ (if \<not> list_ex (\<lambda>n. node_type n = LOAD_BALANCER) (nodes e) then [recAddLoadBalancer]
        else [])"

record Summary =
  sum_totalRequests :: nat
  sum_successRate :: jsnum
  sum_averageLatency :: real
  sum_peakRPS :: jsnum
  sum_bottlenecks :: "BottleneckAnalysis list"
  sum_recommendations :: "string list"

record SimulationResult =
  res_config :: SimulationConfig
  res_duration :: real
  res_metricsHistory :: "MetricsSnapshot list"
  res_events :: "SimulationEvent list"
  res_summary :: Summary

text \<open>
  \<^verbatim>\<open>getResult\<close> is a method of the engine: it returns its result together with the engine
  it leaves behind.
\<close>

definition getResult :: "engine \<Rightarrow> SimulationResult \<times> engine" where
  "getResult e =
     (let bottlenecks = analyzeBottlenecks e;
          peakRPS =
            Math_max (map (\<lambda>s. sm_requestsPerSecond (snap_system s)) (st_metricsHistory (state e)))
      in (\<lparr> res_config = st_config (state e),
            res_duration = st_currentTime (state e) / 1000,
            res_metricsHistory = st_metricsHistory (state e),
            res_events = st_events (state e),
            res_summary =
              \<lparr> sum_totalRequests = sm_totalRequests (st_systemMetrics (state e)),
                sum_successRate =
                  js_div (real (sm_successfulRequests (st_systemMetrics (state e))))
                    (real (sm_totalRequests (st_systemMetrics (state e)))),
                sum_averageLatency = sm_averageLatency (st_systemMetrics (state e)),
                sum_peakRPS = peakRPS,
                sum_bottlenecks = bottlenecks,
                sum_recommendations = generateRecommendations e bottlenecks \<rparr> \<rparr>,
          e))"

section \<open>Runs\<close>

text \<open>
  What can happen to an engine: a call of the host, or the browser running the interval
  callback. An exception of the callback is reported by the browser and changes nothing
  further, so a run continues from the engine the callback left.
\<close>

datatype action = Start | Pause | Resume | Stop | SetSpeed real | IntervalFires | GetResult

fun perform :: "action \<Rightarrow> engine \<Rightarrow> engine" where
  "perform Start e = start e"
| "perform Pause e = pause e"
| "perform Resume e = resume e"
| "perform Stop e = stop e"
| "perform (SetSpeed s) e = setSpeed s e"
| "perform IntervalFires e = snd (intervalCallback e)"
| "perform GetResult e = snd (getResult e)"

definition run :: "action list \<Rightarrow> engine \<Rightarrow> engine" where
  "run acts e = fold perform acts e"

section \<open>Notions used in the statements and proofs\<close>

subsection \<open>Accounting of requests\<close>

definition terminal :: "ActiveRequest \<Rightarrow> bool" where
  "terminal r \<longleftrightarrow> req_status r = Completed \<or> req_status r = Failed"

definition inFlight :: "ActiveRequest list \<Rightarrow> nat" where
  "inFlight rs = length (filter (\<lambda>r. \<not> terminal r) rs)"

definition tally :: "engine \<Rightarrow> nat \<times> nat \<times> nat" where
  "tally e =
     (sm_totalRequests (st_systemMetrics (state e)),
      sm_successfulRequests (st_systemMetrics (state e)),
      sm_failedRequests (st_systemMetrics (state e)))"

definition settled :: "engine \<Rightarrow> nat" where
  "settled e =
     sm_successfulRequests (st_systemMetrics (state e))
       + sm_failedRequests (st_systemMetrics (state e))"

text \<open>
  Every request ever generated is either counted as successful or failed, or still in
  flight in the active list; the ids of the active list are distinct and below the counter.
\<close>

definition accounted :: "engine \<Rightarrow> bool" where
  "accounted e \<longleftrightarrow>
     sm_totalRequests (st_systemMetrics (state e))
       = settled e + inFlight (st_activeRequests (state e))
     \<and> distinct (map req_id (st_activeRequests (state e)))
     \<and> (\<forall>r \<in> set (st_activeRequests (state e)). req_id r < requestIdCounter e)"

subsection \<open>How node metrics change\<close>

text \<open>
  One step of a metrics object: its queue depth does not shrink, and its instance count
  stays in the range 1 to 10 if it was there. A metrics map evolves when it keeps its keys,
  in order, and every entry makes such a step.
\<close>

definition metricsStep :: "NodeMetrics \<Rightarrow> NodeMetrics \<Rightarrow> bool" where
  "metricsStep m m' \<longleftrightarrow>
     nm_queueDepth m \<le> nm_queueDepth m'
     \<and> (1 \<le> nm_instances m \<and> nm_instances m \<le> 10
        \<longrightarrow> 1 \<le> nm_instances m' \<and> nm_instances m' \<le> 10)"

definition evolves :: "(string \<times> NodeMetrics) list \<Rightarrow> (string \<times> NodeMetrics) list \<Rightarrow> bool" where
  "evolves ms ms' \<longleftrightarrow>
     list_all2 (\<lambda>p q. fst q = fst p \<and> metricsStep (snd p) (snd q)) ms ms'"

definition queueTotal :: "(string \<times> NodeMetrics) list \<Rightarrow> nat" where
  "queueTotal ms = sum_list (map (\<lambda>(k, m). nm_queueDepth m) ms)"

definition depthBounded :: "engine \<Rightarrow> bool" where
  "depthBounded e \<longleftrightarrow>
     sm_totalQueueDepth (st_systemMetrics (state e)) \<le> queueTotal (st_nodeMetrics (state e))"

definition advances :: "engine \<Rightarrow> engine \<Rightarrow> bool" where
  "advances e e' \<longleftrightarrow>
     evolves (st_nodeMetrics (state e)) (st_nodeMetrics (state e'))
     \<and> (depthBounded e \<longrightarrow>
          sm_totalQueueDepth (st_systemMetrics (state e))
            \<le> sm_totalQueueDepth (st_systemMetrics (state e'))
          \<and> depthBounded e')"

text \<open>The metrics of a node that no request has reached.\<close>

definition pristine :: "NodeMetrics \<Rightarrow> bool" where
  "pristine m \<longleftrightarrow>
     nm_throughput m = 0 \<and> nm_queueDepth m = 0 \<and> nm_cpuUtilization m = Fin 0
     \<and> nm_instances m = 1 \<and> nm_errorRate m = 0"

subsection \<open>The stages of a tick\<close>

text \<open>\<^const>\<open>tick\<close> up to and including \<^const>\<open>updateMetrics\<close>, and up to the scaling check.\<close>

definition tickBody :: "engine \<Rightarrow> engine" where
  "tickBody e =
     updateMetrics
       (processRequests (cfg_tickRate (st_config (state e)))
          (generateRequests (advanceTime (cfg_tickRate (st_config (state e))) e)))"

definition tickScaled :: "engine \<Rightarrow> engine" where
  "tickScaled e =
     (if cfg_autoScaling (st_config (state e)) then checkAutoScaling (tickBody e)
      else tickBody e)"

subsection \<open>A run without traffic\<close>

text \<open>No request was ever generated and no node's metrics were touched.\<close>

definition quiet :: "engine \<Rightarrow> bool" where
  "quiet e \<longleftrightarrow>
     cfg_requestsPerSecond (st_config (state e)) = 0
     \<and> st_activeRequests (state e) = []
     \<and> sm_totalRequests (st_systemMetrics (state e)) = 0
     \<and> list_all (\<lambda>p. pristine (snd p)) (st_nodeMetrics (state e))"

subsection \<open>A client wired directly to a database\<close>

text \<open>The latencies that the completion events of a log report.\<close>

definition completionLatencies :: "SimulationEvent list \<Rightarrow> real list" where
  "completionLatencies evs =
     concat (map (\<lambda>ev. case ev_message ev of RequestCompleted rid l \<Rightarrow> [l] | _ \<Rightarrow> []) evs)"

definition direct :: "SystemNode \<Rightarrow> SystemNode \<Rightarrow> SimulationConfig \<Rightarrow> engine \<Rightarrow> bool" where
  "direct c d config e \<longleftrightarrow>
     node_type c = CLIENT \<and> node_type d = DATABASE \<and> node_id c \<noteq> node_id d
     \<and> nodes e = [c, d]
     \<and> edges e = [\<lparr>edge_source = node_id c, edge_target = node_id d\<rparr>]
     \<and> st_config (state e) = config
     \<and> cfg_errorRate config = 0 \<and> cfg_dbLatency config = 40 \<and> cfg_tickRate config = 100
     \<and> cfg_network config (''client'' @ arrow @ ''database'') = None"

definition fresh :: "SystemNode \<Rightarrow> SystemNode \<Rightarrow> real \<Rightarrow> ActiveRequest \<Rightarrow> bool" where
  "fresh c d t r \<longleftrightarrow>
     req_status r = Pending \<and> req_targetNodeId r = node_id d \<and> req_path r = [node_id c]
     \<and> req_currentLatency r = 0 \<and> req_startTime r = t"

definition arrived :: "SystemNode \<Rightarrow> SystemNode \<Rightarrow> ActiveRequest \<Rightarrow> bool" where
  "arrived c d r \<longleftrightarrow>
     req_status r = Completed \<and> req_currentLatency r = 100
     \<and> req_path r = [node_id c, node_id d]"

text \<open>The part of the engine that the statement about the direct graph reads.\<close>

definition ledger :: "engine \<Rightarrow> (nat \<times> nat \<times> nat) \<times> real \<times> real list" where
  "ledger e =
     (tally e, sm_averageLatency (st_systemMetrics (state e)),
      completionLatencies (st_events (state e)))"

definition clean :: "engine \<Rightarrow> bool" where
  "clean e \<longleftrightarrow>
     sm_failedRequests (st_systemMetrics (state e)) = 0
     \<and> sm_averageLatency (st_systemMetrics (state e)) = 0
     \<and> list_all (\<lambda>l. l = 0) (completionLatencies (st_events (state e)))"

definition balanced :: "engine \<Rightarrow> bool" where
  "balanced e \<longleftrightarrow>
     sm_totalRequests (st_systemMetrics (state e))
       = sm_successfulRequests (st_systemMetrics (state e))
         + inFlight (st_activeRequests (state e))
     \<and> clean e"

definition queued :: "SystemNode \<Rightarrow> SystemNode \<Rightarrow> engine \<Rightarrow> bool" where
  "queued c d e \<longleftrightarrow>
     list_all (\<lambda>r. arrived c d r \<or> fresh c d (st_currentTime (state e)) r)
       (st_activeRequests (state e))
     \<and> balanced e"

definition served :: "SystemNode \<Rightarrow> SystemNode \<Rightarrow> engine \<Rightarrow> bool" where
  "served c d e \<longleftrightarrow>
     list_all (arrived c d) (st_activeRequests (state e)) \<and> balanced e"

subsection \<open>Concrete graphs and configurations\<close>

definition sampleClient :: SystemNode where
  "sampleClient = \<lparr>node_id = ''c'', node_type = CLIENT, node_label = ''Client''\<rparr>"

definition sampleDatabase :: SystemNode where
  "sampleDatabase = \<lparr>node_id = ''d'', node_type = DATABASE, node_label = ''Database''\<rparr>"

definition clientToDatabase :: "SystemEdge list" where
  "clientToDatabase = [\<lparr>edge_source = ''c'', edge_target = ''d''\<rparr>]"

definition clientToMissing :: "SystemEdge list" where
  "clientToMissing = [\<lparr>edge_source = ''c'', edge_target = ''ghost''\<rparr>]"

definition clientToItself :: "SystemEdge list" where
  "clientToItself = [\<lparr>edge_source = ''c'', edge_target = ''c''\<rparr>]"

text \<open>
  The default configuration of \<^verbatim>\<open>types/simulation.ts\<close> with no failures, an empty network
  matrix, 5 requests per second and a duration of 0.2 seconds (two ticks of 100 ms).
\<close>

definition sampleConfig :: SimulationConfig where
  "sampleConfig =
     \<lparr> cfg_requestsPerSecond = 5, cfg_concurrentUsers = 50, cfg_payloadSize = 10,
       cfg_errorRate = 0, cfg_messageQueueDepth = 100, cfg_cacheHitRatio = 85 / 100,
       cfg_dbLatency = 40, cfg_serviceCpuCost = 8, cfg_network = (\<lambda>k. None),
       cfg_autoScaling = True, cfg_failureInjection = False, cfg_consistencyMode = Eventual,
       cfg_chaosMode = False, cfg_duration = 2 / 10, cfg_tickRate = 100 \<rparr>"

text \<open>Draws of \<^verbatim>\<open>Math.random\<close>: 0.5 first, then always 0.\<close>

definition sampleDraws :: "nat \<Rightarrow> real" where
  "sampleDraws n = (if n = 0 then 1 / 2 else 0)"

definition sampleService :: SystemNode where
  "sampleService = \<lparr>node_id = ''s'', node_type = SERVICE, node_label = ''Service''\<rparr>"


definition clientToService :: "SystemEdge list" where
  "clientToService = [\<lparr>edge_source = ''c'', edge_target = ''s''\<rparr>]"

definition sampleGateway :: SystemNode where
  "sampleGateway = \<lparr>node_id = ''a'', node_type = API_GATEWAY, node_label = ''Gateway''\<rparr>"

text \<open>A client pointing at a gateway that forms a two-node cycle with a service.\<close>

definition clientToCycle :: "SystemEdge list" where
  "clientToCycle =
     [\<lparr>edge_source = ''c'', edge_target = ''a''\<rparr>,
      \<lparr>edge_source = ''a'', edge_target = ''s''\<rparr>,
      \<lparr>edge_source = ''s'', edge_target = ''a''\<rparr>]"


text \<open>
  A configuration under which one request in the first tick of 10 ms saturates a service,
  and one with a queue capacity of 1.
\<close>

definition busyConfig :: SimulationConfig where
  "busyConfig =
     sampleConfig\<lparr>cfg_requestsPerSecond := 50, cfg_serviceCpuCost := 0, cfg_tickRate := 10\<rparr>"


text \<open>\<^const>\<open>sampleConfig\<close> without traffic, and with a duration of one second.\<close>

definition idleConfig :: SimulationConfig where
  "idleConfig = sampleConfig\<lparr>cfg_requestsPerSecond := 0\<rparr>"

definition tenTickConfig :: SimulationConfig where
  "tenTickConfig = sampleConfig\<lparr>cfg_duration := 1\<rparr>"

text \<open>
  The event log of a saturated queue. An event is an enqueue of node \<open>k\<close>, or a backlog
  warning of node \<open>k\<close>, by its type and node id.
\<close>

definition isEnqueue :: "string \<Rightarrow> SimulationEvent \<Rightarrow> bool" where
  "isEnqueue k ev \<longleftrightarrow> ev_type ev = QUEUE_ENQUEUE \<and> ev_nodeId ev = Some k"

definition isWarning :: "string \<Rightarrow> SimulationEvent \<Rightarrow> bool" where
  "isWarning k ev \<longleftrightarrow> ev_type ev = BACKLOG_WARNING \<and> ev_nodeId ev = Some k"

text \<open>
  In a stretch of the event log, every QUEUE_ENQUEUE event of node \<open>k\<close> is immediately
  followed by a BACKLOG_WARNING event of node \<open>k\<close>.
\<close>

fun enqueuesWarned :: "string \<Rightarrow> SimulationEvent list \<Rightarrow> bool" where
  "enqueuesWarned k [] = True"
| "enqueuesWarned k [ev] = (\<not> isEnqueue k ev)"
| "enqueuesWarned k (ev # ev' # evs) =
     ((if isEnqueue k ev then isWarning k ev' else True) \<and> enqueuesWarned k (ev' # evs))"

text \<open>
  The queue depth of node \<open>k\<close> exceeds 80% of \<open>messageQueueDepth\<close>, the threshold of the
  backlog warning in the QUEUE branch of \<open>handleNodeProcessing\<close>.
\<close>

definition saturated :: "string \<Rightarrow> engine \<Rightarrow> bool" where
  "saturated k e \<longleftrightarrow>
     (case map_of (st_nodeMetrics (state e)) k of
        None \<Rightarrow> False
      | Some m \<Rightarrow>
          cfg_messageQueueDepth (st_config (state e)) * (8 / 10) < real (nm_queueDepth m))"

text \<open>
  The log of \<open>e'\<close> extends the log of \<open>e\<close> by a stretch in which every enqueue of \<open>k\<close> is
  warned; and the relation kept by every operation: the configuration stays, the metrics
  advance, and from a saturated state the log is extended in that way.
\<close>

definition logged :: "string \<Rightarrow> engine \<Rightarrow> engine \<Rightarrow> bool" where
  "logged k e e' \<longleftrightarrow>
     (\<exists>new. st_events (state e') = st_events (state e) @ new \<and> enqueuesWarned k new)"

definition steady :: "string \<Rightarrow> engine \<Rightarrow> engine \<Rightarrow> bool" where
  "steady k e e' \<longleftrightarrow>
     st_config (state e') = st_config (state e) \<and> advances e e'
     \<and> (if saturated k e then logged k e e' else True)"




section \<open>What each operation leaves alone\<close>

lemmas prims = Math_random_def generateRequestId_def generateEventId_def emitEvent_def
  setStatus_def clearIntervalId_def runSimulationLoop_def incTotalRequests_def pushRequest_def
  setNodeMetrics_def setSystemMetrics_def setActiveRequests_def takeMetricsSnapshot_def
  advanceTime_def incFailedRequests_def incSuccessfulRequests_def incScalingActions_def
  updateLatencyMetrics_def emitNodeEvent_def emitRequestEvent_def

lemma emitNodeEvent_frame:
  "nodes (emitNodeEvent ty n m s e) = nodes e"
  "edges (emitNodeEvent ty n m s e) = edges e"
  "st_config (state (emitNodeEvent ty n m s e)) = st_config (state e)"
  "st_currentTime (state (emitNodeEvent ty n m s e)) = st_currentTime (state e)"
  "st_systemMetrics (state (emitNodeEvent ty n m s e)) = st_systemMetrics (state e)"
  "st_nodeMetrics (state (emitNodeEvent ty n m s e)) = st_nodeMetrics (state e)"
  "st_activeRequests (state (emitNodeEvent ty n m s e)) = st_activeRequests (state e)"
  "requestIdCounter (emitNodeEvent ty n m s e) = requestIdCounter e"
  by (simp_all add: prims Let_def)

lemma emitRequestEvent_frame:
  "nodes (emitRequestEvent ty n i tp m s e) = nodes e"
  "edges (emitRequestEvent ty n i tp m s e) = edges e"
  "st_config (state (emitRequestEvent ty n i tp m s e)) = st_config (state e)"
  "st_currentTime (state (emitRequestEvent ty n i tp m s e)) = st_currentTime (state e)"
  "st_systemMetrics (state (emitRequestEvent ty n i tp m s e)) = st_systemMetrics (state e)"
  "st_nodeMetrics (state (emitRequestEvent ty n i tp m s e)) = st_nodeMetrics (state e)"
  "st_activeRequests (state (emitRequestEvent ty n i tp m s e)) = st_activeRequests (state e)"
  "requestIdCounter (emitRequestEvent ty n i tp m s e) = requestIdCounter e"
  by (simp_all add: prims Let_def)

lemma nodeTypeEffects_frame:
  "nodes (snd (nodeTypeEffects n r m e)) = nodes e"
  "edges (snd (nodeTypeEffects n r m e)) = edges e"
  "st_config (state (snd (nodeTypeEffects n r m e))) = st_config (state e)"
  "st_currentTime (state (snd (nodeTypeEffects n r m e))) = st_currentTime (state e)"
  "st_systemMetrics (state (snd (nodeTypeEffects n r m e))) = st_systemMetrics (state e)"
  "st_nodeMetrics (state (snd (nodeTypeEffects n r m e))) = st_nodeMetrics (state e)"
  "st_activeRequests (state (snd (nodeTypeEffects n r m e))) = st_activeRequests (state e)"
  "requestIdCounter (snd (nodeTypeEffects n r m e)) = requestIdCounter e"
  by (simp_all add: nodeTypeEffects_def emitNodeEvent_frame Math_random_def Let_def
        split: NodeType.splits prod.splits)

lemma handleNodeProcessing_frame:
  "nodes (handleNodeProcessing n r e) = nodes e"
  "edges (handleNodeProcessing n r e) = edges e"
  "st_config (state (handleNodeProcessing n r e)) = st_config (state e)"
  "st_currentTime (state (handleNodeProcessing n r e)) = st_currentTime (state e)"
  "st_systemMetrics (state (handleNodeProcessing n r e)) = st_systemMetrics (state e)"
  "st_activeRequests (state (handleNodeProcessing n r e)) = st_activeRequests (state e)"
  "requestIdCounter (handleNodeProcessing n r e) = requestIdCounter e"
  by (simp_all add: handleNodeProcessing_def setNodeMetrics_def Let_def split_beta
        nodeTypeEffects_frame split: option.splits)

lemma arriveAtNode_frame:
  "nodes (snd (arriveAtNode n r e)) = nodes e"
  "edges (snd (arriveAtNode n r e)) = edges e"
  "st_config (state (snd (arriveAtNode n r e))) = st_config (state e)"
  "st_currentTime (state (snd (arriveAtNode n r e))) = st_currentTime (state e)"
  "st_activeRequests (state (snd (arriveAtNode n r e))) = st_activeRequests (state e)"
  "requestIdCounter (snd (arriveAtNode n r e)) = requestIdCounter e"
  by (simp_all add: arriveAtNode_def Let_def split_beta emitRequestEvent_frame
        handleNodeProcessing_frame incFailedRequests_def incSuccessfulRequests_def
        updateLatencyMetrics_def setSystemMetrics_def Math_random_def)

lemma processRequest_frame:
  "nodes (snd (processRequest dt r e)) = nodes e"
  "edges (snd (processRequest dt r e)) = edges e"
  "st_config (state (snd (processRequest dt r e))) = st_config (state e)"
  "st_currentTime (state (snd (processRequest dt r e))) = st_currentTime (state e)"
  "st_activeRequests (state (snd (processRequest dt r e))) = st_activeRequests (state e)"
  "requestIdCounter (snd (processRequest dt r e)) = requestIdCounter e"
  by (simp_all add: processRequest_def Let_def arriveAtNode_frame incFailedRequests_def
        setSystemMetrics_def split: option.splits)

lemma processEach_frame:
  "nodes (snd (snd (processEach dt rs e))) = nodes e
   \<and> edges (snd (snd (processEach dt rs e))) = edges e
   \<and> st_config (state (snd (snd (processEach dt rs e)))) = st_config (state e)
   \<and> st_currentTime (state (snd (snd (processEach dt rs e)))) = st_currentTime (state e)
   \<and> st_activeRequests (state (snd (snd (processEach dt rs e)))) = st_activeRequests (state e)
   \<and> requestIdCounter (snd (snd (processEach dt rs e))) = requestIdCounter e"
  by (induction rs arbitrary: e) (simp_all add: split_beta Let_def processRequest_frame)

lemma processRequests_frame:
  "nodes (processRequests dt e) = nodes e"
  "edges (processRequests dt e) = edges e"
  "st_config (state (processRequests dt e)) = st_config (state e)"
  "st_currentTime (state (processRequests dt e)) = st_currentTime (state e)"
  "requestIdCounter (processRequests dt e) = requestIdCounter e"
  by (simp_all add: processRequests_def split_beta setActiveRequests_def processEach_frame)

lemma generateOne_frame:
  "nodes (generateOne cs e) = nodes e"
  "edges (generateOne cs e) = edges e"
  "st_config (state (generateOne cs e)) = st_config (state e)"
  "st_currentTime (state (generateOne cs e)) = st_currentTime (state e)"
  "st_nodeMetrics (state (generateOne cs e)) = st_nodeMetrics (state e)"
  by (simp_all add: generateOne_def prims Let_def)

lemma generateLoop_frame:
  "nodes (generateLoop n cs e) = nodes e
   \<and> edges (generateLoop n cs e) = edges e
   \<and> st_config (state (generateLoop n cs e)) = st_config (state e)
   \<and> st_currentTime (state (generateLoop n cs e)) = st_currentTime (state e)
   \<and> st_nodeMetrics (state (generateLoop n cs e)) = st_nodeMetrics (state e)"
  by (induction n arbitrary: e) (simp_all add: generateOne_frame)

lemma generateRequests_frame:
  "nodes (generateRequests e) = nodes e"
  "edges (generateRequests e) = edges e"
  "st_config (state (generateRequests e)) = st_config (state e)"
  "st_currentTime (state (generateRequests e)) = st_currentTime (state e)"
  "st_nodeMetrics (state (generateRequests e)) = st_nodeMetrics (state e)"
  by (simp_all add: generateRequests_def Let_def split_beta generateLoop_frame Math_random_def)

lemma updateMetrics_frame:
  "nodes (updateMetrics e) = nodes e"
  "edges (updateMetrics e) = edges e"
  "st_config (state (updateMetrics e)) = st_config (state e)"
  "st_currentTime (state (updateMetrics e)) = st_currentTime (state e)"
  "st_activeRequests (state (updateMetrics e)) = st_activeRequests (state e)"
  "requestIdCounter (updateMetrics e) = requestIdCounter e"
  "st_events (state (updateMetrics e)) = st_events (state e)"
  by (simp_all add: updateMetrics_def Let_def prims)

lemma scaleUp_frame:
  "nodes (snd (scaleUp i n m e)) = nodes e"
  "edges (snd (scaleUp i n m e)) = edges e"
  "st_config (state (snd (scaleUp i n m e))) = st_config (state e)"
  "st_currentTime (state (snd (scaleUp i n m e))) = st_currentTime (state e)"
  "st_activeRequests (state (snd (scaleUp i n m e))) = st_activeRequests (state e)"
  "requestIdCounter (snd (scaleUp i n m e)) = requestIdCounter e"
  by (simp_all add: scaleUp_def Let_def prims)

lemma scaleDown_frame:
  "nodes (snd (scaleDown i n m e)) = nodes e"
  "edges (snd (scaleDown i n m e)) = edges e"
  "st_config (state (snd (scaleDown i n m e))) = st_config (state e)"
  "st_currentTime (state (snd (scaleDown i n m e))) = st_currentTime (state e)"
  "st_activeRequests (state (snd (scaleDown i n m e))) = st_activeRequests (state e)"
  "requestIdCounter (snd (scaleDown i n m e)) = requestIdCounter e"
  by (simp_all add: scaleDown_def Let_def prims)

lemma scaleNode_frame:
  "nodes (snd (scaleNode i m e)) = nodes e"
  "edges (snd (scaleNode i m e)) = edges e"
  "st_config (state (snd (scaleNode i m e))) = st_config (state e)"
  "st_currentTime (state (snd (scaleNode i m e))) = st_currentTime (state e)"
  "st_activeRequests (state (snd (scaleNode i m e))) = st_activeRequests (state e)"
  "requestIdCounter (snd (scaleNode i m e)) = requestIdCounter e"
  by (simp_all add: scaleNode_def split_beta scaleUp_frame scaleDown_frame split: option.splits)

lemma scaleEach_Cons:
  "scaleEach (p # rest) e =
     (let (m, e1) = scaleNode (fst p) (snd p) e; (rest', e2) = scaleEach rest e1
      in ((fst p, m) # rest', e2))"
  by (cases p) simp

lemma scaleEach_frame:
  "nodes (snd (scaleEach ms e)) = nodes e
   \<and> edges (snd (scaleEach ms e)) = edges e
   \<and> st_config (state (snd (scaleEach ms e))) = st_config (state e)
   \<and> st_currentTime (state (snd (scaleEach ms e))) = st_currentTime (state e)
   \<and> st_activeRequests (state (snd (scaleEach ms e))) = st_activeRequests (state e)
   \<and> requestIdCounter (snd (scaleEach ms e)) = requestIdCounter e"
  by (induction ms arbitrary: e) (simp_all add: scaleEach_Cons split_beta scaleNode_frame)

lemma checkAutoScaling_frame:
  "nodes (checkAutoScaling e) = nodes e"
  "edges (checkAutoScaling e) = edges e"
  "st_config (state (checkAutoScaling e)) = st_config (state e)"
  "st_currentTime (state (checkAutoScaling e)) = st_currentTime (state e)"
  "st_activeRequests (state (checkAutoScaling e)) = st_activeRequests (state e)"
  "requestIdCounter (checkAutoScaling e) = requestIdCounter e"
  by (simp_all add: checkAutoScaling_def split_beta setNodeMetrics_def scaleEach_frame)

lemma applyChaosEffects_frame:
  "nodes (snd (applyChaosEffects e)) = nodes e"
  "edges (snd (applyChaosEffects e)) = edges e"
  "st_config (state (snd (applyChaosEffects e))) = st_config (state e)"
  "st_currentTime (state (snd (applyChaosEffects e))) = st_currentTime (state e)"
  "st_activeRequests (state (snd (applyChaosEffects e))) = st_activeRequests (state e)"
  "requestIdCounter (snd (applyChaosEffects e)) = requestIdCounter e"
  "st_systemMetrics (state (snd (applyChaosEffects e))) = st_systemMetrics (state e)"
  "st_nodeMetrics (state (snd (applyChaosEffects e))) = st_nodeMetrics (state e)"
  by (simp_all add: applyChaosEffects_def split_beta Let_def prims)

lemma takeMetricsSnapshot_frame:
  "nodes (takeMetricsSnapshot e) = nodes e"
  "edges (takeMetricsSnapshot e) = edges e"
  "st_config (state (takeMetricsSnapshot e)) = st_config (state e)"
  "st_currentTime (state (takeMetricsSnapshot e)) = st_currentTime (state e)"
  "st_activeRequests (state (takeMetricsSnapshot e)) = st_activeRequests (state e)"
  "requestIdCounter (takeMetricsSnapshot e) = requestIdCounter e"
  "st_systemMetrics (state (takeMetricsSnapshot e)) = st_systemMetrics (state e)"
  "st_nodeMetrics (state (takeMetricsSnapshot e)) = st_nodeMetrics (state e)"
  "st_events (state (takeMetricsSnapshot e)) = st_events (state e)"
  by (simp_all add: prims)

lemma advanceTime_frame:
  "nodes (advanceTime dt e) = nodes e"
  "edges (advanceTime dt e) = edges e"
  "st_config (state (advanceTime dt e)) = st_config (state e)"
  "st_activeRequests (state (advanceTime dt e)) = st_activeRequests (state e)"
  "requestIdCounter (advanceTime dt e) = requestIdCounter e"
  "st_systemMetrics (state (advanceTime dt e)) = st_systemMetrics (state e)"
  "st_nodeMetrics (state (advanceTime dt e)) = st_nodeMetrics (state e)"
  "st_events (state (advanceTime dt e)) = st_events (state e)"
  by (simp_all add: prims)

lemma tick_frame:
  "nodes (snd (tick e)) = nodes e"
  "edges (snd (tick e)) = edges e"
  "st_config (state (snd (tick e))) = st_config (state e)"
  by (simp_all add: tick_def Let_def split_beta takeMetricsSnapshot_frame applyChaosEffects_frame
        checkAutoScaling_frame updateMetrics_frame processRequests_frame generateRequests_frame
        advanceTime_frame)

text \<open>The lifecycle calls touch the status, the timer handle, the speed and the event log.\<close>

lemma start_frame:
  "nodes (start e) = nodes e"
  "edges (start e) = edges e"
  "st_config (state (start e)) = st_config (state e)"
  "st_currentTime (state (start e)) = st_currentTime (state e)"
  "st_activeRequests (state (start e)) = st_activeRequests (state e)"
  "requestIdCounter (start e) = requestIdCounter e"
  "st_systemMetrics (state (start e)) = st_systemMetrics (state e)"
  "st_nodeMetrics (state (start e)) = st_nodeMetrics (state e)"
  by (simp_all add: start_def Let_def prims)

lemma pause_frame:
  "nodes (pause e) = nodes e"
  "edges (pause e) = edges e"
  "st_config (state (pause e)) = st_config (state e)"
  "st_currentTime (state (pause e)) = st_currentTime (state e)"
  "st_activeRequests (state (pause e)) = st_activeRequests (state e)"
  "requestIdCounter (pause e) = requestIdCounter e"
  "st_systemMetrics (state (pause e)) = st_systemMetrics (state e)"
  "st_nodeMetrics (state (pause e)) = st_nodeMetrics (state e)"
  by (simp_all add: pause_def Let_def prims)

lemma resume_frame:
  "nodes (resume e) = nodes e"
  "edges (resume e) = edges e"
  "st_config (state (resume e)) = st_config (state e)"
  "st_currentTime (state (resume e)) = st_currentTime (state e)"
  "st_activeRequests (state (resume e)) = st_activeRequests (state e)"
  "requestIdCounter (resume e) = requestIdCounter e"
  "st_systemMetrics (state (resume e)) = st_systemMetrics (state e)"
  "st_nodeMetrics (state (resume e)) = st_nodeMetrics (state e)"
  by (simp_all add: resume_def Let_def prims)

lemma stop_frame:
  "nodes (stop e) = nodes e"
  "edges (stop e) = edges e"
  "st_config (state (stop e)) = st_config (state e)"
  "st_currentTime (state (stop e)) = st_currentTime (state e)"
  "st_activeRequests (state (stop e)) = st_activeRequests (state e)"
  "requestIdCounter (stop e) = requestIdCounter e"
  "st_systemMetrics (state (stop e)) = st_systemMetrics (state e)"
  "st_nodeMetrics (state (stop e)) = st_nodeMetrics (state e)"
  by (simp_all add: stop_def Let_def prims)

lemma setSpeed_frame:
  "nodes (setSpeed s e) = nodes e"
  "edges (setSpeed s e) = edges e"
  "st_config (state (setSpeed s e)) = st_config (state e)"
  "st_currentTime (state (setSpeed s e)) = st_currentTime (state e)"
  "st_activeRequests (state (setSpeed s e)) = st_activeRequests (state e)"
  "requestIdCounter (setSpeed s e) = requestIdCounter e"
  "st_systemMetrics (state (setSpeed s e)) = st_systemMetrics (state e)"
  "st_nodeMetrics (state (setSpeed s e)) = st_nodeMetrics (state e)"
  by (simp_all add: setSpeed_def Let_def pause_frame resume_frame)

lemma complete_frame:
  "nodes (complete e) = nodes e"
  "edges (complete e) = edges e"
  "st_config (state (complete e)) = st_config (state e)"
  "st_currentTime (state (complete e)) = st_currentTime (state e)"
  "st_activeRequests (state (complete e)) = st_activeRequests (state e)"
  "requestIdCounter (complete e) = requestIdCounter e"
  "st_systemMetrics (state (complete e)) = st_systemMetrics (state e)"
  "st_nodeMetrics (state (complete e)) = st_nodeMetrics (state e)"
  by (simp_all add: complete_def Let_def stop_frame prims)

lemma getResult_same: "snd (getResult e) = e"
  by (simp add: getResult_def Let_def)

lemma intervalCallback_frame:
  "nodes (snd (intervalCallback e)) = nodes e"
  "edges (snd (intervalCallback e)) = edges e"
  "st_config (state (snd (intervalCallback e))) = st_config (state e)"
  by (simp_all add: intervalCallback_def split_beta complete_frame tick_frame)

lemma perform_frame:
  "nodes (perform a e) = nodes e"
  "edges (perform a e) = edges e"
  "st_config (state (perform a e)) = st_config (state e)"
  by (cases a; simp add: start_frame pause_frame resume_frame stop_frame setSpeed_frame
        intervalCallback_frame getResult_same)+

lemma run_frame:
  "nodes (run acts e) = nodes e \<and> edges (run acts e) = edges e
   \<and> st_config (state (run acts e)) = st_config (state e)"
  unfolding run_def by (induction acts arbitrary: e) (simp_all add: perform_frame)


lemma run_snoc: "run (as @ [a]) e = perform a (run as e)"
  by (simp add: run_def)

section \<open>Every request is counted once\<close>

lemma accounted_cong:
  "st_systemMetrics (state e') = st_systemMetrics (state e) \<Longrightarrow>
   st_activeRequests (state e') = st_activeRequests (state e) \<Longrightarrow>
   requestIdCounter e' = requestIdCounter e \<Longrightarrow> accounted e' = accounted e"
  by (simp add: accounted_def settled_def)

lemma tally_cong:
  "tally e' = tally e \<Longrightarrow>
   st_activeRequests (state e') = st_activeRequests (state e) \<Longrightarrow>
   requestIdCounter e' = requestIdCounter e \<Longrightarrow> accounted e' = accounted e"
  by (simp add: accounted_def settled_def tally_def)

lemma accounted_newEngine: "accounted (newEngine ns es config rnd)"
  by (simp add: accounted_def settled_def inFlight_def newEngine_def initializeState_def
        createEmptySystemMetrics_def)

lemma accounted_generateOne: "accounted e \<Longrightarrow> accounted (generateOne cs e)"
  by (auto simp: accounted_def settled_def inFlight_def terminal_def generateOne_def prims Let_def
        less_Suc_eq)

lemma accounted_generateLoop: "accounted e \<Longrightarrow> accounted (generateLoop n cs e)"
  by (induction n arbitrary: e) (simp_all add: accounted_generateOne)

lemma accounted_Math_random: "accounted (snd (Math_random e)) = accounted e"
  by (simp add: accounted_def settled_def Math_random_def)

lemma accounted_generateRequests: "accounted e \<Longrightarrow> accounted (generateRequests e)"
  by (simp add: generateRequests_def Let_def split_beta accounted_generateLoop
        accounted_Math_random)

text \<open>A request leaving the callback has been counted once if it is now terminal.\<close>

lemma arriveAtNode_tally:
  "sm_totalRequests (st_systemMetrics (state (snd (arriveAtNode n r e))))
     = sm_totalRequests (st_systemMetrics (state e))"
  "req_id (fst (arriveAtNode n r e)) = req_id r"
  "settled (snd (arriveAtNode n r e)) + inFlight [fst (arriveAtNode n r e)] = Suc (settled e)"
  by (simp_all add: arriveAtNode_def Let_def split_beta emitRequestEvent_frame
        handleNodeProcessing_frame incFailedRequests_def incSuccessfulRequests_def
        updateLatencyMetrics_def setSystemMetrics_def Math_random_def settled_def inFlight_def
        terminal_def)

lemma processRequest_tally:
  "sm_totalRequests (st_systemMetrics (state (snd (processRequest dt r e))))
     = sm_totalRequests (st_systemMetrics (state e))"
  "req_id (fst (processRequest dt r e)) = req_id r"
  "\<not> terminal r \<Longrightarrow>
   settled (snd (processRequest dt r e)) + inFlight [fst (processRequest dt r e)]
     = Suc (settled e)"
  by (simp_all add: processRequest_def Let_def arriveAtNode_tally incFailedRequests_def
        setSystemMetrics_def split: option.splits)
     (simp_all add: settled_def inFlight_def terminal_def)

lemma inFlight_Cons: "inFlight (r # rs) = inFlight [r] + inFlight rs"
  by (simp add: inFlight_def)

lemma processEach_terminal:
  "terminal r \<Longrightarrow>
   processEach dt (r # rs) e =
     (r # fst (processEach dt rs e), req_id r # fst (snd (processEach dt rs e)),
      snd (snd (processEach dt rs e)))"
  by (simp add: terminal_def split_beta)

lemma processEach_live:
  "\<not> terminal r \<Longrightarrow>
   processEach dt (r # rs) e =
     (fst (processRequest dt r e) # fst (processEach dt rs (snd (processRequest dt r e))),
      fst (snd (processEach dt rs (snd (processRequest dt r e)))),
      snd (snd (processEach dt rs (snd (processRequest dt r e)))))"
  by (simp add: terminal_def split_beta Let_def)

lemma inFlight_terminal: "terminal r \<Longrightarrow> inFlight (r # rs) = inFlight rs"
  by (simp add: inFlight_def)

lemma processEach_tally:
  "sm_totalRequests (st_systemMetrics (state (snd (snd (processEach dt rs e)))))
     = sm_totalRequests (st_systemMetrics (state e))
   \<and> map req_id (fst (processEach dt rs e)) = map req_id rs
   \<and> settled (snd (snd (processEach dt rs e))) + inFlight (fst (processEach dt rs e))
       = settled e + inFlight rs
   \<and> set (fst (snd (processEach dt rs e))) \<subseteq> req_id ` set rs"
proof (induction rs arbitrary: e)
  case Nil
  show ?case by simp
next
  case (Cons r rs)
  show ?case
  proof (cases "terminal r")
    case True
    have "set (fst (snd (processEach dt rs e))) \<subseteq> req_id ` set rs"
      using Cons[of e] by blast
    then have "set (req_id r # fst (snd (processEach dt rs e))) \<subseteq> req_id ` set (r # rs)"
      by auto
    then show ?thesis
      using Cons[of e] True
      by (simp add: processEach_terminal[OF True] inFlight_terminal[OF True]
            del: processEach.simps)
  next
    case False
    let ?p = "processRequest dt r e"
    let ?q = "processEach dt rs (snd ?p)"
    have 1: "sm_totalRequests (st_systemMetrics (state (snd (snd ?q))))
        = sm_totalRequests (st_systemMetrics (state e))"
      using Cons[of "snd ?p"] by (simp add: processRequest_tally)
    have 2: "map req_id (fst ?p # fst ?q) = map req_id (r # rs)"
      using Cons[of "snd ?p"] by (simp add: processRequest_tally)
    have "settled (snd (snd ?q)) + inFlight (fst ?q) = settled (snd ?p) + inFlight rs"
      using Cons[of "snd ?p"] by blast
    moreover have "settled (snd ?p) + inFlight [fst ?p] = Suc (settled e)"
      using False by (rule processRequest_tally)
    moreover have "inFlight [r] = 1" using False by (simp add: inFlight_def)
    ultimately have 3: "settled (snd (snd ?q)) + inFlight (fst ?p # fst ?q)
        = settled e + inFlight (r # rs)"
      using inFlight_Cons[of r rs] inFlight_Cons[of "fst ?p" "fst ?q"] by linarith
    have "set (fst (snd ?q)) \<subseteq> req_id ` set rs"
      using Cons[of "snd ?p"] by blast
    then have 4: "set (fst (snd ?q)) \<subseteq> req_id ` set (r # rs)" by auto
    show ?thesis
      using 1 2 3 4 by (simp add: processEach_live[OF False] del: processEach.simps)
  qed
qed

lemma processEach_done_terminal:
  "distinct (map req_id rs) \<Longrightarrow> r' \<in> set (fst (processEach dt rs e)) \<Longrightarrow>
   req_id r' \<in> set (fst (snd (processEach dt rs e))) \<Longrightarrow> terminal r'"
proof (induction rs arbitrary: e)
  case Nil
  then show ?case by simp
next
  case (Cons r rs)
  show ?case
  proof (cases "terminal r")
    case True
    let ?q = "processEach dt rs e"
    from Cons.prems have in': "r' = r \<or> r' \<in> set (fst ?q)"
      by (simp add: processEach_terminal[OF True] del: processEach.simps)
    from Cons.prems have d: "req_id r' = req_id r \<or> req_id r' \<in> set (fst (snd ?q))"
      by (simp add: processEach_terminal[OF True] del: processEach.simps)
    show ?thesis
    proof (cases "r' = r")
      case True
      with \<open>terminal r\<close> show ?thesis by simp
    next
      case False
      with in' have m: "r' \<in> set (fst ?q)" by simp
      then have "req_id r' \<in> set (map req_id (fst ?q))" by simp
      then have "req_id r' \<in> set (map req_id rs)"
        using processEach_tally[of dt rs e] by simp
      with Cons.prems(1) have "req_id r' \<noteq> req_id r" by auto
      with d have "req_id r' \<in> set (fst (snd ?q))" by simp
      with Cons.IH[of e] Cons.prems(1) m show ?thesis by simp
    qed
  next
    case False
    let ?p = "processRequest dt r e"
    let ?q = "processEach dt rs (snd ?p)"
    from Cons.prems have in': "r' = fst ?p \<or> r' \<in> set (fst ?q)"
      by (simp add: processEach_live[OF False] del: processEach.simps)
    from Cons.prems have d: "req_id r' \<in> set (fst (snd ?q))"
      by (simp add: processEach_live[OF False] del: processEach.simps)
    have sub: "set (fst (snd ?q)) \<subseteq> req_id ` set rs"
      using processEach_tally[of dt rs "snd ?p"] by simp
    show ?thesis
    proof (cases "r' \<in> set (fst ?q)")
      case True
      with Cons.IH[of "snd ?p"] Cons.prems(1) d show ?thesis by simp
    next
      case False
      with in' have "r' = fst ?p" by simp
      then have "req_id r' = req_id r" by (simp add: processRequest_tally)
      with d sub have "req_id r \<in> req_id ` set rs" by auto
      with Cons.prems(1) show ?thesis by auto
    qed
  qed
qed

lemma inFlight_filter:
  "(\<And>r. r \<in> set rs \<Longrightarrow> \<not> Q r \<Longrightarrow> terminal r) \<Longrightarrow> inFlight (filter Q rs) = inFlight rs"
  by (induction rs) (auto simp: inFlight_def)

lemma accounted_processRequests:
  assumes "accounted e"
  shows "accounted (processRequests dt e)"
proof -
  let ?rs = "st_activeRequests (state e)"
  let ?p = "processEach dt ?rs e"
  let ?keep = "filter (\<lambda>r. req_id r \<notin> set (fst (snd ?p))) (fst ?p)"
  from assms have dist: "distinct (map req_id ?rs)"
    and bound: "\<forall>r \<in> set ?rs. req_id r < requestIdCounter e"
    and tot: "sm_totalRequests (st_systemMetrics (state e)) = settled e + inFlight ?rs"
    by (simp_all add: accounted_def)
  have ids: "map req_id (fst ?p) = map req_id ?rs"
    using processEach_tally[of dt ?rs e] by simp
  have "inFlight ?keep = inFlight (fst ?p)"
    by (rule inFlight_filter) (use processEach_done_terminal[OF dist] in auto)
  then have 1: "sm_totalRequests (st_systemMetrics (state (snd (snd ?p))))
      = settled (snd (snd ?p)) + inFlight ?keep"
    using processEach_tally[of dt ?rs e] tot by simp
  have "distinct (map req_id (fst ?p))" using ids dist by simp
  then have 2: "distinct (map req_id ?keep)"
    by (simp add: distinct_map_filter)
  have "set (map req_id ?keep) \<subseteq> set (map req_id (fst ?p))" by auto
  then have "set (map req_id ?keep) \<subseteq> set (map req_id ?rs)" using ids by simp
  then have 3: "\<forall>r \<in> set ?keep. req_id r < requestIdCounter (snd (snd ?p))"
    using bound processEach_frame[of dt ?rs e] by auto
  show ?thesis
    using 1 2 3
    by (simp add: processRequests_def split_beta setActiveRequests_def accounted_def settled_def)
qed

lemma updateMetrics_tally: "tally (updateMetrics e) = tally e"
  by (simp add: updateMetrics_def Let_def prims tally_def)

lemma scaleNode_tally: "tally (snd (scaleNode i m e)) = tally e"
  by (simp add: scaleNode_def scaleUp_def scaleDown_def split_beta Let_def prims tally_def
        split: option.splits)

lemma scaleEach_tally: "tally (snd (scaleEach ms e)) = tally e"
  by (induction ms arbitrary: e) (simp_all add: scaleEach_Cons split_beta scaleNode_tally)

lemma checkAutoScaling_tally: "tally (checkAutoScaling e) = tally e"
  using scaleEach_tally[of "st_nodeMetrics (state e)" e]
  by (simp add: checkAutoScaling_def split_beta setNodeMetrics_def tally_def)

lemma tickBody_config: "st_config (state (tickBody e)) = st_config (state e)"
  by (simp add: tickBody_def updateMetrics_frame processRequests_frame generateRequests_frame
        advanceTime_frame)

lemma tickScaled_config: "st_config (state (tickScaled e)) = st_config (state e)"
  by (simp add: tickScaled_def tickBody_config checkAutoScaling_frame)

lemma tick_cases:
  "snd (tick e) = tickScaled e
   \<or> snd (tick e) = takeMetricsSnapshot (tickScaled e)
   \<or> snd (tick e) = snd (applyChaosEffects (tickScaled e))
   \<or> snd (tick e) = takeMetricsSnapshot (snd (applyChaosEffects (tickScaled e)))"
proof -
  have "tick e =
     (let (err, e6) = (if cfg_chaosMode (st_config (state e)) then applyChaosEffects (tickScaled e)
                       else (None, tickScaled e))
      in if err \<noteq> None then (err, e6)
         else (None, if frac (st_currentTime (state e6) / 1000) = 0
                     then takeMetricsSnapshot e6 else e6))"
    by (simp add: tick_def Let_def tickScaled_def tickBody_def tickBody_config[unfolded tickBody_def]
          checkAutoScaling_frame updateMetrics_frame processRequests_frame generateRequests_frame
          advanceTime_frame)
  then show ?thesis
    by (simp add: split_beta)
qed

lemma accounted_tick: "accounted e \<Longrightarrow> accounted (snd (tick e))"
proof -
  assume a: "accounted e"
  let ?dt = "cfg_tickRate (st_config (state e))"
  let ?e3 = "processRequests ?dt (generateRequests (advanceTime ?dt e))"
  have "accounted (advanceTime ?dt e) = accounted e"
    by (rule accounted_cong) (simp_all add: advanceTime_frame)
  with a have "accounted (advanceTime ?dt e)" by simp
  then have 3: "accounted ?e3"
    by (intro accounted_processRequests accounted_generateRequests)
  have "accounted (updateMetrics ?e3) = accounted ?e3"
    by (rule tally_cong) (simp_all add: updateMetrics_tally updateMetrics_frame)
  with 3 have 4: "accounted (tickBody e)"
    by (simp add: tickBody_def)
  have "accounted (checkAutoScaling (tickBody e)) = accounted (tickBody e)"
    by (rule tally_cong) (simp_all add: checkAutoScaling_tally checkAutoScaling_frame)
  with 4 have 5: "accounted (tickScaled e)"
    by (simp add: tickScaled_def)
  have c: "\<And>x. accounted (snd (applyChaosEffects x)) = accounted x"
    by (rule accounted_cong) (simp_all add: applyChaosEffects_frame)
  have s: "\<And>x. accounted (takeMetricsSnapshot x) = accounted x"
    by (rule accounted_cong) (simp_all add: takeMetricsSnapshot_frame)
  from tick_cases[of e] 5 show ?thesis
    by (elim disjE) (simp_all add: c s)
qed

lemma accounted_lifecycle:
  "accounted (start e) = accounted e"
  "accounted (pause e) = accounted e"
  "accounted (resume e) = accounted e"
  "accounted (stop e) = accounted e"
  "accounted (setSpeed sp e) = accounted e"
  "accounted (complete e) = accounted e"
  by (rule accounted_cong; simp add: start_frame pause_frame resume_frame stop_frame
        setSpeed_frame complete_frame)+

lemma accounted_perform: "accounted e \<Longrightarrow> accounted (perform a e)"
  by (cases a)
     (simp_all add: accounted_lifecycle getResult_same intervalCallback_def split_beta
        accounted_tick)

lemma accounted_run: "accounted e \<Longrightarrow> accounted (run acts e)"
  unfolding run_def by (induction acts arbitrary: e) (simp_all add: accounted_perform)

section \<open>Queue depths grow, instance counts stay in range\<close>

lemma metricsStep_refl: "metricsStep m m"
  by (simp add: metricsStep_def)

lemma metricsStep_trans: "metricsStep a b \<Longrightarrow> metricsStep b c \<Longrightarrow> metricsStep a c"
  by (auto simp: metricsStep_def)

lemma evolves_refl: "evolves ms ms"
  by (simp add: evolves_def list_all2_same metricsStep_refl)

lemma evolves_trans:
  assumes "evolves a b" and "evolves b c"
  shows "evolves a c"
proof -
  let ?R = "\<lambda>(p :: string \<times> NodeMetrics) q. fst q = fst p \<and> metricsStep (snd p) (snd q)"
  have len: "length a = length b" "length b = length c"
    using assms by (simp_all add: evolves_def list_all2_lengthD)
  have "?R (a ! i) (c ! i)" if "i < length a" for i
  proof -
    have "?R (a ! i) (b ! i)"
      using assms(1) that by (simp add: evolves_def list_all2_conv_all_nth)
    moreover have "?R (b ! i) (c ! i)"
      using assms(2) that len by (simp add: evolves_def list_all2_conv_all_nth)
    ultimately show ?thesis
      using metricsStep_trans[of "snd (a ! i)" "snd (b ! i)" "snd (c ! i)"] by simp
  qed
  then show ?thesis
    using len by (simp add: evolves_def list_all2_conv_all_nth)
qed

lemma evolves_update:
  "map_of ms k = Some m \<Longrightarrow> metricsStep m m' \<Longrightarrow> evolves ms (AList.update k m' ms)"
proof (induction ms)
  case Nil
  then show ?case by simp
next
  case (Cons p ms)
  show ?case
  proof (cases "fst p = k")
    case True
    with Cons.prems have "snd p = m" by (cases p) simp
    with True Cons.prems(2) show ?thesis
      using evolves_refl[of ms] by (cases p) (simp add: evolves_def)
  next
    case False
    with Cons.prems have "map_of ms k = Some m" by (cases p) (simp split: if_splits)
    with Cons.IH Cons.prems(2) have "evolves ms (AList.update k m' ms)" by simp
    with False show ?thesis
      by (cases p) (simp add: evolves_def metricsStep_refl)
  qed
qed

lemma evolves_map:
  "(\<And>k m. metricsStep m (f k m)) \<Longrightarrow> evolves ms (map (\<lambda>(k, m). (k, f k m)) ms)"
  by (induction ms) (auto simp: evolves_def)

lemma evolves_queueTotal: "evolves ms ms' \<Longrightarrow> queueTotal ms \<le> queueTotal ms'"
  unfolding evolves_def queueTotal_def
  by (induction ms ms' rule: list_all2_induct) (auto simp: metricsStep_def split_beta)


lemma evolves_range:
  "evolves ms ms' \<Longrightarrow>
   list_all (\<lambda>p. 1 \<le> nm_instances (snd p) \<and> nm_instances (snd p) \<le> 10) ms \<Longrightarrow>
   list_all (\<lambda>p. 1 \<le> nm_instances (snd p) \<and> nm_instances (snd p) \<le> 10) ms'"
  unfolding evolves_def
  by (induction ms ms' rule: list_all2_induct) (auto simp: metricsStep_def)

lemma advances_refl: "advances e e"
  by (simp add: advances_def evolves_refl)

lemma advances_trans: "advances a b \<Longrightarrow> advances b c \<Longrightarrow> advances a c"
  by (auto simp: advances_def intro: evolves_trans)

lemma advancesI:
  "evolves (st_nodeMetrics (state e)) (st_nodeMetrics (state e')) \<Longrightarrow>
   sm_totalQueueDepth (st_systemMetrics (state e'))
     = sm_totalQueueDepth (st_systemMetrics (state e)) \<Longrightarrow>
   advances e e'"
  using evolves_queueTotal[of "st_nodeMetrics (state e)" "st_nodeMetrics (state e')"]
  by (simp add: advances_def depthBounded_def)

lemma advances_same:
  "st_nodeMetrics (state e') = st_nodeMetrics (state e) \<Longrightarrow>
   st_systemMetrics (state e') = st_systemMetrics (state e) \<Longrightarrow> advances e e'"
  by (rule advancesI) (simp_all add: evolves_refl)

text \<open>Node processing.\<close>

lemma nodeTypeEffects_metrics:
  "nm_instances (fst (nodeTypeEffects n r m e)) = nm_instances m"
  "nm_queueDepth m \<le> nm_queueDepth (fst (nodeTypeEffects n r m e))"
  by (simp_all add: nodeTypeEffects_def Let_def split_beta split: NodeType.splits)

lemma advances_handleNodeProcessing: "advances e (handleNodeProcessing n r e)"
proof (cases "map_of (st_nodeMetrics (state e)) (node_id n)")
  case None
  then show ?thesis by (simp add: handleNodeProcessing_def advances_refl)
next
  case (Some metrics)
  let ?m1 = "metrics\<lparr>nm_throughput := Suc (nm_throughput metrics)\<rparr>"
  let ?p = "nodeTypeEffects n r ?m1 e"
  let ?rps = "js_div (real (nm_throughput (fst ?p))) (st_currentTime (state e) / 1000)"
  let ?m3 = "(fst ?p)\<lparr>nm_requestsPerSecond := ?rps,
      nm_cpuUtilization := js_min (js_times (js_over ?rps 100) (of_int (nm_instances (fst ?p)))) 1\<rparr>"
  have step: "metricsStep metrics ?m3"
    using nodeTypeEffects_metrics(1)[of n r ?m1 e] nodeTypeEffects_metrics(2)[of ?m1 n r e]
    by (simp add: metricsStep_def)
  have eq: "handleNodeProcessing n r e
      = setNodeMetrics (AList.update (node_id n) ?m3 (st_nodeMetrics (state e))) (snd ?p)"
    using Some by (simp add: handleNodeProcessing_def Let_def split_beta nodeTypeEffects_frame)
  show ?thesis
    unfolding eq
    by (rule advancesI)
       (simp_all add: setNodeMetrics_def nodeTypeEffects_frame evolves_update[OF Some step])
qed

lemma advances_Math_random: "advances e (snd (Math_random e))"
  by (rule advances_same) (simp_all add: Math_random_def)

lemma advances_emitRequestEvent: "advances e (emitRequestEvent ty n i tp m s e)"
  by (rule advances_same) (simp_all add: emitRequestEvent_frame)

lemma advances_emitNodeEvent: "advances e (emitNodeEvent ty n m s e)"
  by (rule advances_same) (simp_all add: emitNodeEvent_frame)

lemma advances_counters:
  "advances e (incFailedRequests e)"
  "advances e (incSuccessfulRequests e)"
  "advances e (incScalingActions e)"
  "advances e (incTotalRequests e)"
  "advances e (updateLatencyMetrics l e)"
  by (rule advancesI; simp add: prims Let_def evolves_refl)+

lemma arriveAtNode_cases:
  "snd (arriveAtNode n r e) =
     emitRequestEvent REQUEST_FAILED (node_id n) (req_id r) None
       (RequestFailedAt (req_id r) (node_label n)) Error (incFailedRequests (snd (Math_random e)))
   \<or> (\<exists>tp m. snd (arriveAtNode n r e) =
         emitRequestEvent REQUEST_PROCESSED (node_id n) (req_id r) tp m Info
           (handleNodeProcessing n r (snd (Math_random e))))
   \<or> (\<exists>l. snd (arriveAtNode n r e) =
         emitRequestEvent REQUEST_PROCESSED (node_id n) (req_id r) None
           (RequestCompleted (req_id r) l) Success
           (updateLatencyMetrics l
              (incSuccessfulRequests (handleNodeProcessing n r (snd (Math_random e))))))"
  unfolding arriveAtNode_def Let_def split_beta
  by (cases "fst (Math_random e) < cfg_errorRate (st_config (state (snd (Math_random e))))";
      cases "findNextHop (handleNodeProcessing n r (snd (Math_random e))) (node_id n) r \<noteq> None \<and>
             findNextHop (handleNodeProcessing n r (snd (Math_random e))) (node_id n) r \<noteq> Some []")
     auto

lemma advances_arriveAtNode: "advances e (snd (arriveAtNode n r e))"
proof -
  let ?e1 = "snd (Math_random e)"
  let ?e2 = "handleNodeProcessing n r ?e1"
  have a1: "advances e ?e1" by (rule advances_Math_random)
  have a2: "advances e ?e2"
    by (rule advances_trans[OF a1 advances_handleNodeProcessing])
  have a3: "advances e (incFailedRequests ?e1)"
    by (rule advances_trans[OF a1 advances_counters(1)])
  have a4: "advances e (updateLatencyMetrics l (incSuccessfulRequests ?e2))" for l
    by (rule advances_trans[OF advances_trans[OF a2 advances_counters(2)] advances_counters(5)])
  have f: "advances e (emitRequestEvent ty (node_id n) i tp m s (incFailedRequests ?e1))"
    for ty i tp m s
    by (rule advances_trans[OF a3 advances_emitRequestEvent])
  have g: "advances e (emitRequestEvent ty (node_id n) i tp m s ?e2)" for ty i tp m s
    by (rule advances_trans[OF a2 advances_emitRequestEvent])
  have h: "advances e
      (emitRequestEvent ty (node_id n) i tp m s (updateLatencyMetrics l (incSuccessfulRequests ?e2)))"
    for ty i tp m s l
    by (rule advances_trans[OF a4 advances_emitRequestEvent])
  from arriveAtNode_cases[of n r e] show ?thesis
    using f g h by (elim disjE exE) simp_all
qed

lemma advances_processRequest: "advances e (snd (processRequest dt r e))"
  by (simp add: processRequest_def Let_def advances_arriveAtNode advances_counters advances_refl
        split: option.splits)

lemma advances_processEach: "advances e (snd (snd (processEach dt rs e)))"
proof (induction rs arbitrary: e)
  case Nil
  show ?case by (simp add: advances_refl)
next
  case (Cons r rs)
  show ?case
  proof (cases "terminal r")
    case True
    then show ?thesis
      using Cons[of e] by (simp add: processEach_terminal del: processEach.simps)
  next
    case False
    then show ?thesis
      using advances_trans[OF advances_processRequest[of e dt r] Cons[of "snd (processRequest dt r e)"]]
      by (simp add: processEach_live del: processEach.simps)
  qed
qed

lemma advances_processRequests: "advances e (processRequests dt e)"
proof -
  let ?p = "processEach dt (st_activeRequests (state e)) e"
  have "advances (snd (snd ?p)) (processRequests dt e)"
    by (rule advances_same) (simp_all add: processRequests_def split_beta setActiveRequests_def)
  with advances_processEach[of e dt "st_activeRequests (state e)"] show ?thesis
    by (rule advances_trans)
qed

lemma generateOne_systemMetrics:
  "sm_totalQueueDepth (st_systemMetrics (state (generateOne cs e)))
     = sm_totalQueueDepth (st_systemMetrics (state e))"
  by (simp add: generateOne_def prims Let_def)

lemma advances_generateOne: "advances e (generateOne cs e)"
  by (rule advancesI) (simp_all add: generateOne_frame generateOne_systemMetrics evolves_refl)

lemma advances_generateLoop: "advances e (generateLoop n cs e)"
proof (induction n arbitrary: e)
  case 0
  show ?case by (simp add: advances_refl)
next
  case (Suc n)
  show ?case
    using advances_trans[OF advances_generateOne Suc] by simp
qed

lemma advances_generateRequests: "advances e (generateRequests e)"
  using advances_trans[OF advances_Math_random advances_generateLoop]
  by (simp add: generateRequests_def Let_def split_beta advances_refl)

lemma advances_advanceTime: "advances e (advanceTime dt e)"
  by (rule advances_same) (simp_all add: advanceTime_frame)

lemma advances_updateMetrics: "advances e (updateMetrics e)"
proof -
  let ?f = "\<lambda>(k::string) m. if 0 < nm_throughput m then m\<lparr>nm_successRate := 1 - nm_errorRate m\<rparr> else m"
  have ev: "evolves (st_nodeMetrics (state e))
      (map (\<lambda>(k, m). (k, ?f k m)) (st_nodeMetrics (state e)))"
    by (rule evolves_map) (simp add: metricsStep_def)
  have nm: "st_nodeMetrics (state (updateMetrics e))
      = map (\<lambda>(k, m). (k, ?f k m)) (st_nodeMetrics (state e))"
    by (simp add: updateMetrics_def Let_def prims)
  have tq: "sm_totalQueueDepth (st_systemMetrics (state (updateMetrics e)))
      = queueTotal (st_nodeMetrics (state e))"
    by (simp add: updateMetrics_def Let_def prims queueTotal_def)
  show ?thesis
    using ev evolves_queueTotal[OF ev]
    by (simp add: advances_def depthBounded_def nm tq)
qed

lemma scaleNode_metrics: "metricsStep m (fst (scaleNode i m e))"
  by (simp add: scaleNode_def scaleUp_def scaleDown_def Let_def split_beta metricsStep_def
        split: option.splits)

lemma scaleNode_state:
  "st_nodeMetrics (state (snd (scaleNode i m e))) = st_nodeMetrics (state e)"
  "sm_totalQueueDepth (st_systemMetrics (state (snd (scaleNode i m e))))
     = sm_totalQueueDepth (st_systemMetrics (state e))"
  by (simp_all add: scaleNode_def scaleUp_def scaleDown_def Let_def split_beta prims
        split: option.splits)

lemma scaleEach_metrics:
  "evolves ms (fst (scaleEach ms e))
   \<and> st_nodeMetrics (state (snd (scaleEach ms e))) = st_nodeMetrics (state e)
   \<and> sm_totalQueueDepth (st_systemMetrics (state (snd (scaleEach ms e))))
       = sm_totalQueueDepth (st_systemMetrics (state e))"
proof (induction ms arbitrary: e)
  case Nil
  show ?case by (simp add: evolves_refl)
next
  case (Cons p ms)
  have "evolves ms (fst (scaleEach ms (snd (scaleNode (fst p) (snd p) e))))"
    using Cons by blast
  then have "evolves (p # ms)
      ((fst p, fst (scaleNode (fst p) (snd p) e))
         # fst (scaleEach ms (snd (scaleNode (fst p) (snd p) e))))"
    using scaleNode_metrics[of "snd p" "fst p" e] by (simp add: evolves_def)
  then show ?case
    using Cons[of "snd (scaleNode (fst p) (snd p) e)"]
    by (simp add: scaleEach_Cons split_beta scaleNode_state)
qed

lemma advances_checkAutoScaling: "advances e (checkAutoScaling e)"
  by (rule advancesI)
     (simp_all add: checkAutoScaling_def split_beta setNodeMetrics_def scaleEach_metrics)

lemma advances_applyChaosEffects: "advances e (snd (applyChaosEffects e))"
  by (rule advances_same) (simp_all add: applyChaosEffects_frame)

lemma advances_takeMetricsSnapshot: "advances e (takeMetricsSnapshot e)"
  by (rule advances_same) (simp_all add: takeMetricsSnapshot_frame)

lemma advances_tickBody: "advances e (tickBody e)"
proof -
  let ?dt = "cfg_tickRate (st_config (state e))"
  have 1: "advances e (advanceTime ?dt e)" by (rule advances_advanceTime)
  have 2: "advances e (generateRequests (advanceTime ?dt e))"
    by (rule advances_trans[OF 1 advances_generateRequests])
  have 3: "advances e (processRequests ?dt (generateRequests (advanceTime ?dt e)))"
    by (rule advances_trans[OF 2 advances_processRequests])
  show ?thesis
    unfolding tickBody_def by (rule advances_trans[OF 3 advances_updateMetrics])
qed

lemma advances_tickScaled: "advances e (tickScaled e)"
  using advances_tickBody[of e] advances_trans[OF advances_tickBody advances_checkAutoScaling, of e]
  by (simp add: tickScaled_def)

lemma advances_tick: "advances e (snd (tick e))"
proof -
  have c: "advances e (snd (applyChaosEffects (tickScaled e)))"
    by (rule advances_trans[OF advances_tickScaled advances_applyChaosEffects])
  have 1: "advances e (takeMetricsSnapshot (tickScaled e))"
    by (rule advances_trans[OF advances_tickScaled advances_takeMetricsSnapshot])
  have 2: "advances e (takeMetricsSnapshot (snd (applyChaosEffects (tickScaled e))))"
    by (rule advances_trans[OF c advances_takeMetricsSnapshot])
  from tick_cases[of e] show ?thesis
    using advances_tickScaled[of e] c 1 2 by (elim disjE) simp_all
qed

lemma advances_lifecycle:
  "advances e (start e)"
  "advances e (pause e)"
  "advances e (resume e)"
  "advances e (stop e)"
  "advances e (setSpeed sp e)"
  "advances e (complete e)"
  by (rule advances_same; simp add: start_frame pause_frame resume_frame stop_frame
        setSpeed_frame complete_frame)+

lemma advances_perform: "advances e (perform a e)"
proof (cases a)
  case IntervalFires
  show ?thesis
    using advances_tick[of e] advances_trans[OF advances_tick advances_lifecycle(6), of e]
    by (simp add: IntervalFires intervalCallback_def split_beta advances_refl)
qed (simp_all add: advances_lifecycle getResult_same advances_refl)

lemma advances_run: "advances e (run acts e)"
proof (induction acts arbitrary: e)
  case Nil
  show ?case by (simp add: run_def advances_refl)
next
  case (Cons a acts)
  have "run (a # acts) e = run acts (perform a e)" by (simp add: run_def)
  with advances_trans[OF advances_perform Cons] show ?case by simp
qed

lemma set_update_subset: "set (AList.update k v al) \<subseteq> insert (k, v) (set al)"
  by (induction al) auto

lemma initial_pristine_aux:
  "list_all (\<lambda>p. pristine (snd p)) acc \<Longrightarrow>
   list_all (\<lambda>p. pristine (snd p))
     (foldl (\<lambda>m node. AList.update (node_id node) (initialNodeMetrics config node) m) acc ns)"
proof (induction ns arbitrary: acc)
  case Nil
  then show ?case by simp
next
  case (Cons n ns)
  have "pristine (initialNodeMetrics config n)"
    by (simp add: pristine_def initialNodeMetrics_def)
  with Cons.prems
  have "list_all (\<lambda>p. pristine (snd p)) (AList.update (node_id n) (initialNodeMetrics config n) acc)"
    using set_update_subset[of "node_id n" "initialNodeMetrics config n" acc]
    by (auto simp: list_all_iff)
  from Cons.IH[OF this] show ?case by simp
qed

lemma initial_pristine:
  "list_all (\<lambda>p. pristine (snd p)) (st_nodeMetrics (state (newEngine ns es config rnd)))"
  using initial_pristine_aux[of "[]" config ns]
  by (simp add: newEngine_def initializeState_def)


lemma instances_in_range:
  "list_all (\<lambda>p. 1 \<le> nm_instances (snd p) \<and> nm_instances (snd p) \<le> 10)
     (st_nodeMetrics (state (run acts (newEngine ns es config rnd))))"
proof -
  have "list_all (\<lambda>p. 1 \<le> nm_instances (snd p) \<and> nm_instances (snd p) \<le> 10)
      (st_nodeMetrics (state (newEngine ns es config rnd)))"
    using initial_pristine[of ns es config rnd] by (auto simp: list_all_iff pristine_def)
  with advances_run[of "newEngine ns es config rnd" acts] show ?thesis
    by (auto simp: advances_def intro: evolves_range)
qed


section \<open>A run without traffic\<close>

lemma quiet_cong:
  "st_config (state e') = st_config (state e) \<Longrightarrow>
   st_activeRequests (state e') = st_activeRequests (state e) \<Longrightarrow>
   st_systemMetrics (state e') = st_systemMetrics (state e) \<Longrightarrow>
   st_nodeMetrics (state e') = st_nodeMetrics (state e) \<Longrightarrow> quiet e' = quiet e"
  by (simp add: quiet_def)

lemma quiet_newEngine: "cfg_requestsPerSecond config = 0 \<Longrightarrow> quiet (newEngine ns es config rnd)"
  using initial_pristine[of ns es config rnd]
  by (simp add: quiet_def) (simp add: newEngine_def initializeState_def createEmptySystemMetrics_def)

lemma generateRequests_none:
  "cfg_requestsPerSecond (st_config (state e)) = 0 \<Longrightarrow> state (generateRequests e) = state e"
  by (simp add: generateRequests_def Let_def split_beta Math_random_def)

lemma quiet_generateRequests: "quiet e \<Longrightarrow> quiet (generateRequests e)"
  by (simp add: quiet_def generateRequests_none)

lemma quiet_processRequests: "quiet e \<Longrightarrow> quiet (processRequests dt e)"
  by (simp add: quiet_def processRequests_def setActiveRequests_def)

lemma successRate_pristine:
  "list_all (\<lambda>p. pristine (snd p)) ms \<Longrightarrow>
   map (\<lambda>(k, m). (k, if 0 < nm_throughput m then m\<lparr>nm_successRate := 1 - nm_errorRate m\<rparr> else m))
     ms = ms"
  by (induction ms) (auto simp: pristine_def)

lemma quiet_updateMetrics: "quiet e \<Longrightarrow> quiet (updateMetrics e)"
proof -
  assume q: "quiet e"
  then have p: "list_all (\<lambda>p. pristine (snd p)) (st_nodeMetrics (state e))"
    by (simp add: quiet_def)
  have "map (\<lambda>(k, m). (k, if 0 < nm_throughput m then m\<lparr>nm_successRate := 1 - nm_errorRate m\<rparr> else m))
          (st_nodeMetrics (state e)) = st_nodeMetrics (state e)"
    using p by (rule successRate_pristine)
  then have "st_nodeMetrics (state (updateMetrics e)) = st_nodeMetrics (state e)"
    by (simp add: updateMetrics_def Let_def prims)
  then show ?thesis
    using q updateMetrics_tally[of e] by (simp add: quiet_def updateMetrics_frame tally_def)
qed

lemma scaleNode_pristine: "pristine m \<Longrightarrow> scaleNode i m e = (m, e)"
  by (simp add: scaleNode_def scaleUp_def scaleDown_def pristine_def split: option.splits)

lemma scaleEach_pristine:
  "list_all (\<lambda>p. pristine (snd p)) ms \<Longrightarrow> scaleEach ms e = (ms, e)"
  by (induction ms) (simp_all add: scaleEach_Cons scaleNode_pristine)

lemma quiet_checkAutoScaling: "quiet e \<Longrightarrow> quiet (checkAutoScaling e)"
  by (simp add: quiet_def checkAutoScaling_def scaleEach_pristine setNodeMetrics_def)

lemma quiet_tick: "quiet e \<Longrightarrow> quiet (snd (tick e))"
proof -
  assume q: "quiet e"
  let ?dt = "cfg_tickRate (st_config (state e))"
  have "quiet (advanceTime ?dt e) = quiet e"
    by (rule quiet_cong) (simp_all add: advanceTime_frame)
  with q have "quiet (advanceTime ?dt e)" by simp
  then have "quiet (tickBody e)"
    unfolding tickBody_def
    by (intro quiet_updateMetrics quiet_processRequests quiet_generateRequests)
  then have 5: "quiet (tickScaled e)"
    by (simp add: tickScaled_def quiet_checkAutoScaling)
  have c: "\<And>x. quiet (snd (applyChaosEffects x)) = quiet x"
    by (rule quiet_cong) (simp_all add: applyChaosEffects_frame)
  have s: "\<And>x. quiet (takeMetricsSnapshot x) = quiet x"
    by (rule quiet_cong) (simp_all add: takeMetricsSnapshot_frame)
  from tick_cases[of e] 5 show ?thesis
    by (elim disjE) (simp_all add: c s)
qed

lemma quiet_lifecycle:
  "quiet (start e) = quiet e"
  "quiet (pause e) = quiet e"
  "quiet (resume e) = quiet e"
  "quiet (stop e) = quiet e"
  "quiet (setSpeed sp e) = quiet e"
  "quiet (complete e) = quiet e"
  by (rule quiet_cong; simp add: start_frame pause_frame resume_frame stop_frame
        setSpeed_frame complete_frame)+

lemma quiet_perform: "quiet e \<Longrightarrow> quiet (perform a e)"
  by (cases a)
     (simp_all add: quiet_lifecycle getResult_same intervalCallback_def split_beta quiet_tick)

lemma quiet_run: "quiet e \<Longrightarrow> quiet (run acts e)"
  unfolding run_def by (induction acts arbitrary: e) (simp_all add: quiet_perform)

lemma analyzeNode_pristine:
  "pristine m \<Longrightarrow> 0 \<le> cfg_messageQueueDepth (st_config (state e)) \<Longrightarrow> analyzeNode e k m = []"
  by (simp add: analyzeNode_def cpuCheck_def queueCheck_def errorCheck_def pristine_def
        split: option.splits)

lemma analyzeEach_pristine:
  "list_all (\<lambda>p. pristine (snd p)) ms \<Longrightarrow> 0 \<le> cfg_messageQueueDepth (st_config (state e)) \<Longrightarrow>
   concat (map (\<lambda>(nodeId, metrics). analyzeNode e nodeId metrics) ms) = []"
  by (induction ms) (auto simp: analyzeNode_pristine)

lemma analyzeBottlenecks_quiet:
  assumes "quiet e" and "0 \<le> cfg_messageQueueDepth (st_config (state e))"
  shows "analyzeBottlenecks e = []"
proof -
  have c: "concat (map (\<lambda>(nodeId, metrics). analyzeNode e nodeId metrics) (st_nodeMetrics (state e)))
      = []"
    using assms by (simp add: quiet_def analyzeEach_pristine)
  show ?thesis unfolding analyzeBottlenecks_def c by simp
qed

section \<open>A client wired directly to a database\<close>

lemma completionLatencies_append:
  "completionLatencies (xs @ ys) = completionLatencies xs @ completionLatencies ys"
  by (simp add: completionLatencies_def)

lemma direct_cong:
  "nodes e' = nodes e \<Longrightarrow> edges e' = edges e \<Longrightarrow> st_config (state e') = st_config (state e) \<Longrightarrow>
   direct c d config e' = direct c d config e"
  by (simp add: direct_def)

lemma balanced_cong:
  "ledger e' = ledger e \<Longrightarrow> st_activeRequests (state e') = st_activeRequests (state e) \<Longrightarrow>
   balanced e' = balanced e"
  by (simp add: balanced_def clean_def ledger_def tally_def)

lemma clean_cong: "ledger e' = ledger e \<Longrightarrow> clean e' = clean e"
  by (simp add: clean_def ledger_def tally_def)

lemma served_cong:
  "ledger e' = ledger e \<Longrightarrow> st_activeRequests (state e') = st_activeRequests (state e) \<Longrightarrow>
   served c d e' = served c d e"
  by (simp add: served_def balanced_def clean_def ledger_def tally_def)

lemma emitNodeEvent_events:
  "st_events (state (emitNodeEvent ty n m s e))
     = st_events (state e) @ [nodeEvent (eventIdCounter e) ty (st_currentTime (state e)) n m s]"
  by (simp add: prims Let_def)

lemma emitRequestEvent_events:
  "st_events (state (emitRequestEvent ty n i tp m s e))
     = st_events (state e)
       @ [requestEvent (eventIdCounter e) ty (st_currentTime (state e)) n i tp m s]"
  by (simp add: prims Let_def)

lemma emitNodeEvent_latencies:
  "completionLatencies (st_events (state (emitNodeEvent ty n m s e)))
     = completionLatencies (st_events (state e))
       @ (case m of RequestCompleted rid l \<Rightarrow> [l] | _ \<Rightarrow> [])"
  by (simp add: emitNodeEvent_events completionLatencies_append)
     (simp add: completionLatencies_def nodeEvent_def)

lemma emitRequestEvent_latencies:
  "completionLatencies (st_events (state (emitRequestEvent ty n i tp m s e)))
     = completionLatencies (st_events (state e))
       @ (case m of RequestCompleted rid l \<Rightarrow> [l] | _ \<Rightarrow> [])"
  by (simp add: emitRequestEvent_events completionLatencies_append)
     (simp add: completionLatencies_def requestEvent_def)

lemma lifecycle_latencies:
  "completionLatencies (st_events (state (start e))) = completionLatencies (st_events (state e))"
  "completionLatencies (st_events (state (pause e))) = completionLatencies (st_events (state e))"
  "completionLatencies (st_events (state (resume e))) = completionLatencies (st_events (state e))"
  "completionLatencies (st_events (state (stop e))) = completionLatencies (st_events (state e))"
  by (simp_all add: start_def pause_def resume_def stop_def Let_def prims
        completionLatencies_append)
     (simp_all add: completionLatencies_def lifecycleEvent_def)

lemma lifecycle_ledger:
  "ledger (start e) = ledger e"
  "ledger (pause e) = ledger e"
  "ledger (resume e) = ledger e"
  "ledger (stop e) = ledger e"
  by (simp_all add: ledger_def tally_def lifecycle_latencies start_frame pause_frame resume_frame
        stop_frame)

lemma setSpeed_ledger: "ledger (setSpeed sp e) = ledger e"
proof -
  have "ledger (x\<lparr>state := (state x)\<lparr>st_speed := sp\<rparr>\<rparr>) = ledger x" for x
    by (simp add: ledger_def tally_def)
  then show ?thesis
    by (simp add: setSpeed_def Let_def lifecycle_ledger)
qed

lemma complete_ledger: "ledger (complete e) = ledger e"
proof -
  have "completionLatencies (st_events (state (complete e)))
      = completionLatencies (st_events (state e))"
    using lifecycle_latencies(4)[of e]
    by (simp add: complete_def Let_def prims completionLatencies_append stop_frame)
       (simp add: completionLatencies_def lifecycleEvent_def)
  then show ?thesis
    by (simp add: ledger_def tally_def complete_frame)
qed

lemma nodeTypeEffects_latencies:
  "completionLatencies (st_events (state (snd (nodeTypeEffects n r m e))))
     = completionLatencies (st_events (state e))"
  by (simp add: nodeTypeEffects_def Let_def split_beta emitNodeEvent_latencies Math_random_def
        emitNodeEvent_frame split: NodeType.splits)

lemma handleNodeProcessing_ledger: "ledger (handleNodeProcessing n r e) = ledger e"
  by (simp add: handleNodeProcessing_def Let_def split_beta setNodeMetrics_def ledger_def
        tally_def nodeTypeEffects_latencies nodeTypeEffects_frame split: option.splits)

lemma Math_random_ledger: "ledger (snd (Math_random e)) = ledger e"
  by (simp add: Math_random_def ledger_def tally_def)

lemma updateMetrics_ledger: "ledger (updateMetrics e) = ledger e"
  using updateMetrics_tally[of e]
  by (simp add: ledger_def updateMetrics_frame) (simp add: updateMetrics_def Let_def prims)

lemma scaleNode_ledger: "ledger (snd (scaleNode i m e)) = ledger e"
  by (simp add: scaleNode_def scaleUp_def scaleDown_def Let_def split_beta ledger_def tally_def
        emitNodeEvent_latencies emitNodeEvent_frame incScalingActions_def setSystemMetrics_def
        split: option.splits)

lemma scaleEach_ledger: "ledger (snd (scaleEach ms e)) = ledger e"
  by (induction ms arbitrary: e) (simp_all add: scaleEach_Cons split_beta scaleNode_ledger)

lemma checkAutoScaling_ledger: "ledger (checkAutoScaling e) = ledger e"
  using scaleEach_ledger[of "st_nodeMetrics (state e)" e]
  by (simp add: checkAutoScaling_def split_beta setNodeMetrics_def ledger_def tally_def)

lemma applyChaosEffects_ledger: "ledger (snd (applyChaosEffects e)) = ledger e"
  by (simp add: applyChaosEffects_def Let_def split_beta ledger_def tally_def
        emitNodeEvent_latencies emitNodeEvent_frame Math_random_def)

lemma takeMetricsSnapshot_ledger: "ledger (takeMetricsSnapshot e) = ledger e"
  by (simp add: ledger_def tally_def takeMetricsSnapshot_frame)

lemma pick_single: "pick [x] (frac y) = x"
  by (simp add: pick_def)

lemma direct_lookup:
  assumes "direct c d config e"
  shows "getNodeById e (node_id c) = Some c" and "getNodeById e (node_id d) = Some d"
    and "filter (\<lambda>n. node_type n = CLIENT) (nodes e) = [c]"
    and "filter (\<lambda>ed. edge_source ed = node_id c) (edges e)
           = [\<lparr>edge_source = node_id c, edge_target = node_id d\<rparr>]"
    and "filter (\<lambda>ed. edge_source ed = node_id d) (edges e) = []"
  using assms by (auto simp: direct_def getNodeById_def)

lemma direct_latency:
  assumes "direct c d config e"
  shows "getNetworkLatency e (node_id c) (node_id d) = 10" and "getProcessingLatency e d = 40"
  using assms direct_lookup(1,2)[OF assms]
  by (simp_all add: getNetworkLatency_def getProcessingLatency_def direct_def)

text \<open>Generation adds fresh requests only.\<close>

lemma generateOne_direct:
  assumes dir: "direct c d config e" and q: "queued c d e"
  shows "queued c d (generateOne [c] e)"
proof -
  let ?e1 = "snd (Math_random e)"
  let ?rq = "\<lparr> req_id = requestIdCounter e, req_sourceNodeId = node_id c,
      req_targetNodeId = node_id d, req_path = [node_id c],
      req_startTime = st_currentTime (state e), req_currentLatency = 0,
      req_payload = cfg_payloadSize (st_config (state e)), req_status = Pending,
      req_progress = Fin 0 \<rparr>"
  have ed: "filter (\<lambda>ed. edge_source ed = node_id c) (edges e)
      = [\<lparr>edge_source = node_id c, edge_target = node_id d\<rparr>]"
    by (rule direct_lookup(4)[OF dir])
  have act: "st_activeRequests (state (generateOne [c] e)) = st_activeRequests (state e) @ [?rq]"
    using ed by (simp add: generateOne_def Let_def split_beta prims pick_def)
  have sm: "st_systemMetrics (state (generateOne [c] e))
      = (st_systemMetrics (state e))
          \<lparr>sm_totalRequests := Suc (sm_totalRequests (st_systemMetrics (state e)))\<rparr>"
    using ed by (simp add: generateOne_def Let_def split_beta prims pick_def)
  have ev: "completionLatencies (st_events (state (generateOne [c] e)))
      = completionLatencies (st_events (state e))"
    using ed
    by (simp add: generateOne_def Let_def split_beta prims pick_def completionLatencies_append)
       (simp add: completionLatencies_def)
  have fr: "fresh c d (st_currentTime (state e)) ?rq"
    by (simp add: fresh_def)
  have nt: "inFlight (st_activeRequests (state e) @ [?rq])
      = Suc (inFlight (st_activeRequests (state e)))"
    by (simp add: inFlight_def terminal_def)
  show ?thesis
    using q fr nt
    by (simp add: queued_def balanced_def clean_def act sm ev generateOne_frame)
qed

lemma generateLoop_direct:
  "direct c d config e \<Longrightarrow> queued c d e \<Longrightarrow> queued c d (generateLoop n [c] e)"
proof (induction n arbitrary: e)
  case 0
  then show ?case by simp
next
  case (Suc n)
  have "direct c d config (generateOne [c] e) = direct c d config e"
    by (rule direct_cong) (simp_all add: generateOne_frame)
  with Suc.prems have "direct c d config (generateOne [c] e)" by simp
  moreover have "queued c d (generateOne [c] e)"
    using Suc.prems by (rule generateOne_direct)
  ultimately show ?case
    using Suc.IH by simp
qed

lemma queued_Math_random: "queued c d (snd (Math_random e)) = queued c d e"
  by (simp add: queued_def balanced_def clean_def Math_random_def)

lemma generateRequests_direct:
  assumes dir: "direct c d config e" and q: "queued c d e"
  shows "queued c d (generateRequests e)"
proof -
  have d1: "direct c d config (snd (Math_random e))"
    using dir direct_cong[of "snd (Math_random e)" e c d config] by (simp add: Math_random_def)
  have q1: "queued c d (snd (Math_random e))"
    using q by (simp add: queued_Math_random)
  show ?thesis
    using generateLoop_direct[OF d1 q1] direct_lookup(3)[OF dir]
    by (simp add: generateRequests_def Let_def split_beta)
qed

text \<open>A fresh request is completed by the tick that generated it, with a recorded latency of 0.\<close>

lemma processRequest_fresh_eq:
  assumes dir: "direct c d config e" and fr: "fresh c d (st_currentTime (state e)) r"
  shows "processRequest 100 r e =
     (r\<lparr>req_currentLatency := 100, req_progress := Fin 1,
        req_path := [node_id c, node_id d], req_status := Completed\<rparr>,
      emitRequestEvent REQUEST_PROCESSED (node_id d) (req_id r) None
        (RequestCompleted (req_id r) 0) Success
        (updateLatencyMetrics 0
           (incSuccessfulRequests
              (handleNodeProcessing d
                 (r\<lparr>req_currentLatency := 100, req_progress := Fin 1,
                    req_path := [node_id c, node_id d]\<rparr>)
                 (snd (Math_random e))))))"
proof -
  let ?r2 = "r\<lparr>req_currentLatency := 100, req_progress := Fin 1,
      req_path := [node_id c, node_id d]\<rparr>"
  let ?e1 = "snd (Math_random e)"
  let ?e2 = "handleNodeProcessing d ?r2 ?e1"
  have step: "processRequest 100 r e = arriveAtNode d ?r2 e"
    using fr direct_lookup(2)[OF dir] direct_latency[OF dir]
    by (simp add: processRequest_def Let_def fresh_def js_div_def)
  have noerr: "\<not> fst (Math_random e) < cfg_errorRate (st_config (state ?e1))"
    using dir by (simp add: Math_random_def direct_def not_less)
  have "edges ?e2 = edges e"
    by (simp add: handleNodeProcessing_frame Math_random_def)
  then have nohop: "findNextHop ?e2 (node_id d) ?r2 = None"
    using direct_lookup(5)[OF dir] by (simp add: findNextHop_def)
  have time: "st_currentTime (state (incSuccessfulRequests ?e2)) - req_startTime ?r2 = 0"
    using fr
    by (simp add: incSuccessfulRequests_def setSystemMetrics_def handleNodeProcessing_frame
          Math_random_def fresh_def)
  show ?thesis
    unfolding step arriveAtNode_def Let_def split_beta
    using noerr nohop time by simp
qed

lemma processRequest_fresh:
  assumes dir: "direct c d config e" and fr: "fresh c d (st_currentTime (state e)) r"
    and cl: "clean e"
  shows "arrived c d (fst (processRequest 100 r e))"
    and "clean (snd (processRequest 100 r e))"
    and "sm_successfulRequests (st_systemMetrics (state (snd (processRequest 100 r e))))
           = Suc (sm_successfulRequests (st_systemMetrics (state e)))"
proof -
  let ?r2 = "r\<lparr>req_currentLatency := 100, req_progress := Fin 1,
      req_path := [node_id c, node_id d]\<rparr>"
  let ?e2 = "handleNodeProcessing d ?r2 (snd (Math_random e))"
  have l2: "ledger ?e2 = ledger e"
    by (simp add: handleNodeProcessing_ledger Math_random_ledger)
  note eq = processRequest_fresh_eq[OF dir fr]
  show "arrived c d (fst (processRequest 100 r e))"
    by (simp add: eq arrived_def)
  show "clean (snd (processRequest 100 r e))"
    using cl l2
    by (simp add: eq clean_def ledger_def tally_def emitRequestEvent_latencies
          emitRequestEvent_frame updateLatencyMetrics_def incSuccessfulRequests_def
          setSystemMetrics_def)
  show "sm_successfulRequests (st_systemMetrics (state (snd (processRequest 100 r e))))
      = Suc (sm_successfulRequests (st_systemMetrics (state e)))"
    using l2
    by (simp add: eq ledger_def tally_def emitRequestEvent_frame updateLatencyMetrics_def
          incSuccessfulRequests_def setSystemMetrics_def)
qed

lemma arrived_terminal: "arrived c d r \<Longrightarrow> terminal r"
  by (simp add: arrived_def terminal_def)

lemma fresh_live: "fresh c d t r \<Longrightarrow> \<not> terminal r"
  by (simp add: fresh_def terminal_def)

lemma processEach_direct:
  "direct c d config e \<Longrightarrow>
   list_all (\<lambda>r. arrived c d r \<or> fresh c d (st_currentTime (state e)) r) rs \<Longrightarrow>
   clean e \<Longrightarrow>
   list_all (arrived c d) (fst (processEach 100 rs e))
   \<and> clean (snd (snd (processEach 100 rs e)))
   \<and> sm_successfulRequests (st_systemMetrics (state (snd (snd (processEach 100 rs e)))))
       = sm_successfulRequests (st_systemMetrics (state e)) + inFlight rs"
proof (induction rs arbitrary: e)
  case Nil
  then show ?case by (simp add: inFlight_def)
next
  case (Cons r rs)
  from Cons.prems(2) have rest: "list_all (\<lambda>r. arrived c d r \<or> fresh c d (st_currentTime (state e)) r) rs"
    and hd: "arrived c d r \<or> fresh c d (st_currentTime (state e)) r"
    by simp_all
  show ?case
  proof (cases "terminal r")
    case True
    with hd have a: "arrived c d r" using fresh_live by blast
    from Cons.IH[OF Cons.prems(1) rest Cons.prems(3)] a show ?thesis
      by (simp add: processEach_terminal[OF True] inFlight_terminal[OF True]
            del: processEach.simps)
  next
    case False
    with hd have f: "fresh c d (st_currentTime (state e)) r" using arrived_terminal by blast
    let ?p = "processRequest 100 r e"
    have d1: "direct c d config (snd ?p)"
      using Cons.prems(1) direct_cong[of "snd ?p" e c d config]
      by (simp add: processRequest_frame)
    have t1: "st_currentTime (state (snd ?p)) = st_currentTime (state e)"
      by (simp add: processRequest_frame)
    note pf = processRequest_fresh[OF Cons.prems(1) f Cons.prems(3)]
    have "inFlight (r # rs) = Suc (inFlight rs)"
      using False by (simp add: inFlight_def)
    with Cons.IH[OF d1 _ pf(2)] rest pf(1) pf(3) show ?thesis
      by (simp add: processEach_live[OF False] t1 del: processEach.simps)
  qed
qed

lemma inFlight_arrived: "list_all (arrived c d) rs \<Longrightarrow> inFlight rs = 0"
  by (induction rs) (auto simp: inFlight_def dest: arrived_terminal)

lemma processRequests_direct:
  assumes dir: "direct c d config e" and q: "queued c d e"
  shows "served c d (processRequests 100 e)"
proof -
  let ?rs = "st_activeRequests (state e)"
  let ?p = "processEach 100 ?rs e"
  let ?keep = "filter (\<lambda>r. req_id r \<notin> set (fst (snd ?p))) (fst ?p)"
  from q have cl: "clean e"
    and all: "list_all (\<lambda>r. arrived c d r \<or> fresh c d (st_currentTime (state e)) r) ?rs"
    and tot: "sm_totalRequests (st_systemMetrics (state e))
        = sm_successfulRequests (st_systemMetrics (state e)) + inFlight ?rs"
    by (simp_all add: queued_def balanced_def)
  note pe = processEach_direct[OF dir all cl]
  have keep: "list_all (arrived c d) ?keep"
    using pe by (simp add: list_all_iff)
  have tot': "sm_totalRequests (st_systemMetrics (state (snd (snd ?p))))
      = sm_successfulRequests (st_systemMetrics (state (snd (snd ?p)))) + inFlight ?keep"
    using pe tot processEach_tally[of 100 ?rs e] inFlight_arrived[OF keep] by simp
  have "clean (setActiveRequests ?keep (snd (snd ?p))) = clean (snd (snd ?p))"
    by (simp add: clean_def setActiveRequests_def)
  then show ?thesis
    using keep tot' pe
    by (simp add: processRequests_def split_beta served_def balanced_def)
       (simp add: setActiveRequests_def)
qed

lemma served_queued: "served c d e \<Longrightarrow> queued c d (advanceTime dt e)"
proof -
  assume s: "served c d e"
  have "balanced (advanceTime dt e) = balanced e"
    by (rule balanced_cong) (simp_all add: ledger_def tally_def advanceTime_frame)
  with s show ?thesis
    by (auto simp: served_def queued_def advanceTime_frame list_all_iff)
qed

lemma tickBody_direct:
  assumes dir: "direct c d config e" and s: "served c d e"
  shows "served c d (tickBody e)"
proof -
  have tr: "cfg_tickRate (st_config (state e)) = 100"
    using dir by (simp add: direct_def)
  let ?e1 = "advanceTime 100 e"
  let ?e2 = "generateRequests ?e1"
  let ?e3 = "processRequests 100 ?e2"
  have d1: "direct c d config ?e1"
    using dir direct_cong[of ?e1 e c d config] by (simp add: advanceTime_frame)
  have q1: "queued c d ?e1" using s by (rule served_queued)
  have d2: "direct c d config ?e2"
    using d1 direct_cong[of ?e2 ?e1 c d config] by (simp add: generateRequests_frame)
  have q2: "queued c d ?e2" using d1 q1 by (rule generateRequests_direct)
  have s3: "served c d ?e3" using d2 q2 by (rule processRequests_direct)
  have "served c d (updateMetrics ?e3) = served c d ?e3"
    by (rule served_cong) (simp_all add: updateMetrics_ledger updateMetrics_frame)
  with s3 show ?thesis
    by (simp add: tickBody_def tr)
qed

lemma tick_direct:
  assumes dir: "direct c d config e" and s: "served c d e"
  shows "served c d (snd (tick e))"
proof -
  have b: "served c d (tickBody e)" using dir s by (rule tickBody_direct)
  have "served c d (checkAutoScaling (tickBody e)) = served c d (tickBody e)"
    by (rule served_cong) (simp_all add: checkAutoScaling_ledger checkAutoScaling_frame)
  with b have 5: "served c d (tickScaled e)"
    by (simp add: tickScaled_def)
  have c: "\<And>x. served c d (snd (applyChaosEffects x)) = served c d x"
    by (rule served_cong) (simp_all add: applyChaosEffects_ledger applyChaosEffects_frame)
  have sn: "\<And>x. served c d (takeMetricsSnapshot x) = served c d x"
    by (rule served_cong) (simp_all add: takeMetricsSnapshot_ledger takeMetricsSnapshot_frame)
  from tick_cases[of e] 5 show ?thesis
    by (elim disjE) (simp_all add: c sn)
qed

lemma served_lifecycle:
  "served c d (start e) = served c d e"
  "served c d (pause e) = served c d e"
  "served c d (resume e) = served c d e"
  "served c d (stop e) = served c d e"
  "served c d (setSpeed sp e) = served c d e"
  "served c d (complete e) = served c d e"
  by (rule served_cong; simp add: lifecycle_ledger setSpeed_ledger complete_ledger start_frame
        pause_frame resume_frame stop_frame setSpeed_frame complete_frame)+

lemma perform_direct:
  assumes dir: "direct c d config e" and s: "served c d e"
  shows "direct c d config (perform a e) \<and> served c d (perform a e)"
proof -
  have "direct c d config (perform a e) = direct c d config e"
    by (rule direct_cong) (simp_all add: perform_frame)
  moreover have "served c d (perform a e)"
    using s tick_direct[OF dir s]
    by (cases a)
       (simp_all add: served_lifecycle getResult_same intervalCallback_def split_beta)
  ultimately show ?thesis using dir by simp
qed

lemma run_direct:
  "direct c d config e \<Longrightarrow> served c d e \<Longrightarrow> served c d (run acts e)"
proof (induction acts arbitrary: e)
  case Nil
  then show ?case by (simp add: run_def)
next
  case (Cons a acts)
  have "run (a # acts) e = run acts (perform a e)" by (simp add: run_def)
  with Cons.IH[of "perform a e"] perform_direct[OF Cons.prems] show ?case by simp
qed

lemma served_newEngine: "served c d (newEngine ns es config rnd)"
  by (simp add: served_def balanced_def clean_def inFlight_def completionLatencies_def
        newEngine_def initializeState_def createEmptySystemMetrics_def)

lemma completionLatencies_member:
  "ev \<in> set evs \<Longrightarrow> ev_message ev = RequestCompleted rid l \<Longrightarrow>
   l \<in> set (completionLatencies evs)"
  by (induction evs) (auto simp: completionLatencies_def)

section \<open>The event log of a saturated queue\<close>




lemma logged_one:
  "st_events (state e') = st_events (state e) @ [ev] \<Longrightarrow> \<not> isEnqueue k ev \<Longrightarrow> logged k e e'"
  by (simp add: logged_def)





lemma steadyI:
  "st_config (state e') = st_config (state e) \<Longrightarrow> advances e e' \<Longrightarrow> logged k e e' \<Longrightarrow>
   steady k e e'"
  by (simp add: steady_def)





lemma steady_emitNodeEvent:
  "ty \<noteq> QUEUE_ENQUEUE \<Longrightarrow> steady k e (emitNodeEvent ty n m s e)"
  by (rule steadyI)
     (simp_all add: emitNodeEvent_frame advances_emitNodeEvent logged_def
        emitNodeEvent_events isEnqueue_def nodeEvent_def)





























section \<open>The claims\<close>

text \<open>
  A run is any sequence of host calls and firings of the interval callback, applied to a
  freshly constructed engine: \<open>run acts (newEngine ns es config rnd)\<close>.
\<close>

subsection \<open>C1: no node id twice in a row on a path\<close>

text \<open>
  The routing step keeps its part of the claim: a hop chosen by \<^const>\<open>findNextHop\<close> is never
  already on the path of the request.
\<close>

lemma findNextHop_unvisited: "findNextHop e c r = Some t \<Longrightarrow> t \<notin> set (req_path r)"
proof -
  assume a: "findNextHop e c r = Some t"
  let ?u = "filter (\<lambda>ed. edge_target ed \<notin> set (req_path r))
              (filter (\<lambda>ed. edge_source ed = c) (edges e))"
  from a obtain ed rest where u: "?u = ed # rest" and t: "t = edge_target ed"
    by (auto simp: findNextHop_def Let_def split: list.splits)
  from u have "ed \<in> set ?u" by simp
  then show ?thesis using t by simp
qed

text \<open>
  On a client that points into a two-node cycle the request walks the cycle once and is
  completed in the second tick.
\<close>

lemma two_node_cycle_completes:
  "map (\<lambda>r. (req_path r, req_status r))
     (st_activeRequests
        (state (run [Start, IntervalFires, IntervalFires]
                  (newEngine [sampleClient, sampleGateway, sampleService] clientToCycle
                     tenTickConfig sampleDraws))))
   = [([''c'', ''a'', ''s''], Completed)]"
  by code_simp

text \<open>
  C1. The claim: the path of a request never contains a node id immediately followed by
  itself, on any graph. The first hop is chosen by \<^const>\<open>generateOne\<close> among the edges that
  leave the client, without the check that \<^const>\<open>findNextHop\<close> makes. On the graph of one
  CLIENT node with an edge to itself, the first tick generates a request that is completed
  with the path \<open>[c, c]\<close>: two visits, for one reachable node.
\<close>

theorem self_loop_repeats_client:
  "map req_path
     (st_activeRequests
        (state (run [Start, IntervalFires]
                  (newEngine [sampleClient] clientToItself sampleConfig sampleDraws))))
   = [ [''c'', ''c''] ]"
  by code_simp

subsection \<open>C2: successful plus failed requests never exceed the total\<close>

text \<open>
  C2. In every state of every run, \<open>successfulRequests + failedRequests \<le> totalRequests\<close>,
  and the two sides are equal when no active request remains and the status is Completed.
\<close>

theorem requests_accounted:
  "sm_successfulRequests (st_systemMetrics (state (run acts (newEngine ns es config rnd))))
     + sm_failedRequests (st_systemMetrics (state (run acts (newEngine ns es config rnd))))
     \<le> sm_totalRequests (st_systemMetrics (state (run acts (newEngine ns es config rnd))))
   \<and> (st_activeRequests (state (run acts (newEngine ns es config rnd))) = []
        \<and> st_status (state (run acts (newEngine ns es config rnd))) = COMPLETED
      \<longrightarrow> sm_successfulRequests (st_systemMetrics (state (run acts (newEngine ns es config rnd))))
           + sm_failedRequests (st_systemMetrics (state (run acts (newEngine ns es config rnd))))
           = sm_totalRequests (st_systemMetrics (state (run acts (newEngine ns es config rnd)))))"
  using accounted_run[OF accounted_newEngine, of acts ns es config rnd]
  by (auto simp: accounted_def settled_def inFlight_def)

text \<open>
  A run that meets the condition: a client connected to a database, one request generated
  and completed in the first tick, removed in the second, which also completes the run.
\<close>

theorem requests_accounted_witness:
  "st_activeRequests
     (state (run [Start, IntervalFires, IntervalFires]
               (newEngine [sampleClient, sampleDatabase] clientToDatabase sampleConfig sampleDraws)))
     = []
   \<and> st_status
       (state (run [Start, IntervalFires, IntervalFires]
                 (newEngine [sampleClient, sampleDatabase] clientToDatabase sampleConfig sampleDraws)))
     = COMPLETED
   \<and> sm_totalRequests
       (st_systemMetrics
          (state (run [Start, IntervalFires, IntervalFires]
                    (newEngine [sampleClient, sampleDatabase] clientToDatabase sampleConfig
                       sampleDraws))))
     = 1
   \<and> sm_successfulRequests
       (st_systemMetrics
          (state (run [Start, IntervalFires, IntervalFires]
                    (newEngine [sampleClient, sampleDatabase] clientToDatabase sampleConfig
                       sampleDraws))))
     + sm_failedRequests
         (st_systemMetrics
            (state (run [Start, IntervalFires, IntervalFires]
                      (newEngine [sampleClient, sampleDatabase] clientToDatabase sampleConfig
                         sampleDraws))))
     = 1"
proof -
  let ?e = "run [Start, IntervalFires, IntervalFires]
              (newEngine [sampleClient, sampleDatabase] clientToDatabase sampleConfig sampleDraws)"
  have 1: "st_activeRequests (state ?e) = []" by code_simp
  have 2: "st_status (state ?e) = COMPLETED" by code_simp
  have 3: "sm_totalRequests (st_systemMetrics (state ?e)) = 1" by code_simp
  show ?thesis
    using requests_accounted[of "[Start, IntervalFires, IntervalFires]"
        "[sampleClient, sampleDatabase]" clientToDatabase sampleConfig sampleDraws] 1 2 3
    by simp
qed

subsection \<open>C3: a request whose target is not a node of the graph\<close>

text \<open>
  The branch of the missing target, for any request and engine: the status and the counter
  change, the event log does not.
\<close>

lemma processRequest_missing_target:
  "getNodeById e (req_targetNodeId r) = None \<Longrightarrow>
   processRequest dt r e = (r\<lparr>req_status := Failed\<rparr>, incFailedRequests e)
   \<and> st_events (state (snd (processRequest dt r e))) = st_events (state e)
   \<and> sm_failedRequests (st_systemMetrics (state (snd (processRequest dt r e))))
       = Suc (sm_failedRequests (st_systemMetrics (state e)))"
  by (simp add: processRequest_def incFailedRequests_def setSystemMetrics_def)

text \<open>
  C3. The claim: such a request is marked failed, \<open>failedRequests\<close> is incremented, a
  failure event is appended to the event log, and the tick goes on. On the graph of one
  CLIENT node whose only edge leads to an id that no node has, the first tick generates a
  request and fails it, \<open>failedRequests\<close> becomes 1, and the event log holds the start event
  and the REQUEST_SENT event only: no REQUEST_FAILED event, which the failure by the error
  rate does emit.
\<close>

theorem missing_target_emits_no_event:
  "map req_status
     (st_activeRequests
        (state (run [Start, IntervalFires]
                  (newEngine [sampleClient] clientToMissing sampleConfig sampleDraws))))
   = [Failed]
   \<and> sm_failedRequests
       (st_systemMetrics
          (state (run [Start, IntervalFires]
                    (newEngine [sampleClient] clientToMissing sampleConfig sampleDraws))))
     = 1
   \<and> map ev_type
       (st_events
          (state (run [Start, IntervalFires]
                    (newEngine [sampleClient] clientToMissing sampleConfig sampleDraws))))
     = [REQUEST_SENT, REQUEST_SENT]
   \<and> map ev_message
       (st_events
          (state (run [Start, IntervalFires]
                    (newEngine [sampleClient] clientToMissing sampleConfig sampleDraws))))
     = [SimulationStarted, RequestSent 0 ''Client'' None]"
  by code_simp

subsection \<open>C4: one client, one database, one edge\<close>

text \<open>
  What every run of such a graph does: each active request is completed, over the path
  client, database, with one tick (100 ms) of accumulated hop latency; every generated
  request has been counted as successful and none as failed; and every completion event,
  like the average latency, records 0 ms. The tick advances the clock, then generates, then
  processes, so a request is stamped with the advanced time and completed by the same
  tick, and \<open>currentTime - startTime\<close> is 0.
\<close>

lemma direct_database_run:
  "node_type c = CLIENT \<and> node_type d = DATABASE \<and> node_id c \<noteq> node_id d
   \<and> cfg_errorRate config = 0 \<and> cfg_dbLatency config = 40 \<and> cfg_tickRate config = 100
   \<and> cfg_duration config = 1 \<and> cfg_network config (''client'' @ arrow @ ''database'') = None
   \<longrightarrow>
     (\<forall>r \<in> set (st_activeRequests
                  (state (run acts
                            (newEngine [c, d]
                               [\<lparr>edge_source = node_id c, edge_target = node_id d\<rparr>] config rnd)))).
        req_status r = Completed \<and> req_currentLatency r = 100
        \<and> req_path r = [node_id c, node_id d])
     \<and> sm_successfulRequests
         (st_systemMetrics
            (state (run acts
                      (newEngine [c, d]
                         [\<lparr>edge_source = node_id c, edge_target = node_id d\<rparr>] config rnd))))
       = sm_totalRequests
           (st_systemMetrics
              (state (run acts
                        (newEngine [c, d]
                           [\<lparr>edge_source = node_id c, edge_target = node_id d\<rparr>] config rnd))))
     \<and> sm_failedRequests
         (st_systemMetrics
            (state (run acts
                      (newEngine [c, d]
                         [\<lparr>edge_source = node_id c, edge_target = node_id d\<rparr>] config rnd))))
       = 0
     \<and> (\<forall>ev \<in> set (st_events
                     (state (run acts
                               (newEngine [c, d]
                                  [\<lparr>edge_source = node_id c, edge_target = node_id d\<rparr>] config
                                  rnd)))).
          \<forall>rid l. ev_message ev = RequestCompleted rid l \<longrightarrow> l = 0)
     \<and> sm_averageLatency
         (st_systemMetrics
            (state (run acts
                      (newEngine [c, d]
                         [\<lparr>edge_source = node_id c, edge_target = node_id d\<rparr>] config rnd))))
       = 0"
proof (intro impI)
  let ?init = "newEngine [c, d] [\<lparr>edge_source = node_id c, edge_target = node_id d\<rparr>] config rnd"
  let ?e = "run acts ?init"
  assume h: "node_type c = CLIENT \<and> node_type d = DATABASE \<and> node_id c \<noteq> node_id d
   \<and> cfg_errorRate config = 0 \<and> cfg_dbLatency config = 40 \<and> cfg_tickRate config = 100
   \<and> cfg_duration config = 1 \<and> cfg_network config (''client'' @ arrow @ ''database'') = None"
  then have dir: "direct c d config ?init"
    by (simp add: direct_def newEngine_def initializeState_def)
  have s: "served c d ?e"
    using dir served_newEngine by (rule run_direct)
  from s have act: "list_all (arrived c d) (st_activeRequests (state ?e))"
    and bal: "balanced ?e"
    by (simp_all add: served_def)
  from act have 1: "\<forall>r \<in> set (st_activeRequests (state ?e)).
      req_status r = Completed \<and> req_currentLatency r = 100 \<and> req_path r = [node_id c, node_id d]"
    by (simp add: list_all_iff arrived_def)
  from bal inFlight_arrived[OF act]
  have 2: "sm_successfulRequests (st_systemMetrics (state ?e))
      = sm_totalRequests (st_systemMetrics (state ?e))"
    and 3: "sm_failedRequests (st_systemMetrics (state ?e)) = 0"
    and 5: "sm_averageLatency (st_systemMetrics (state ?e)) = 0"
    and lat: "list_all (\<lambda>l. l = 0) (completionLatencies (st_events (state ?e)))"
    by (simp_all add: balanced_def clean_def)
  have 4: "\<forall>ev \<in> set (st_events (state ?e)). \<forall>rid l. ev_message ev = RequestCompleted rid l \<longrightarrow> l = 0"
    using lat completionLatencies_member by (fastforce simp: list_all_iff)
  show "(\<forall>r \<in> set (st_activeRequests (state ?e)).
        req_status r = Completed \<and> req_currentLatency r = 100
        \<and> req_path r = [node_id c, node_id d])
     \<and> sm_successfulRequests (st_systemMetrics (state ?e))
       = sm_totalRequests (st_systemMetrics (state ?e))
     \<and> sm_failedRequests (st_systemMetrics (state ?e)) = 0
     \<and> (\<forall>ev \<in> set (st_events (state ?e)).
          \<forall>rid l. ev_message ev = RequestCompleted rid l \<longrightarrow> l = 0)
     \<and> sm_averageLatency (st_systemMetrics (state ?e)) = 0"
    using 1 2 3 4 5 by blast
qed

text \<open>
  C4. For one CLIENT node connected by a single edge to one DATABASE node, with
  \<open>errorRate = 0\<close>, \<open>dbLatency = 40\<close>, \<open>tickRate = 100\<close>, \<open>duration = 1\<close> and no entry of the
  network matrix under the key of the pair, the claim is that every generated request
  completes with a total latency of one tick, 100 ms. In the run below, a start and one
  tick, the only request is generated at time 100 and completed at time 100 over the path
  client, database: the request itself holds 100 ms of latency and the database event
  reports 40 ms, but the completion event records a total latency of 0 ms.
\<close>

theorem direct_database_zero_latency:
  "map ev_message
     (st_events
        (state (run [Start, IntervalFires]
                  (newEngine [sampleClient, sampleDatabase] clientToDatabase tenTickConfig
                     sampleDraws))))
     = [SimulationStarted, RequestSent 0 ''Client'' (Some ''Database''), DbQuery 0 40,
        RequestCompleted 0 0]
   \<and> map (\<lambda>r. (req_path r, req_status r, req_startTime r, req_currentLatency r))
       (st_activeRequests
          (state (run [Start, IntervalFires]
                    (newEngine [sampleClient, sampleDatabase] clientToDatabase tenTickConfig
                       sampleDraws))))
     = [([''c'', ''d''], Completed, 100, 100)]
   \<and> st_currentTime
       (state (run [Start, IntervalFires]
                 (newEngine [sampleClient, sampleDatabase] clientToDatabase tenTickConfig
                    sampleDraws)))
     = 100
   \<and> cfg_network tenTickConfig (''client'' @ arrow @ ''database'') = None"
  by code_simp

subsection \<open>C5: the instance count under auto-scaling\<close>

text \<open>
  C5. In every state of every run, whatever the configuration, the instance count of every
  node's metrics is between 1 and 10; and neither the scale-up nor the scale-down statement
  of the scaling check takes an instance count out of that range.
\<close>

theorem instances_between_1_and_10:
  "(\<forall>p \<in> set (st_nodeMetrics (state (run acts (newEngine ns es config rnd)))).
      1 \<le> nm_instances (snd p) \<and> nm_instances (snd p) \<le> 10)
   \<and> (1 \<le> nm_instances m \<and> nm_instances m \<le> 10
      \<longrightarrow> 1 \<le> nm_instances (fst (scaleUp i n m e)) \<and> nm_instances (fst (scaleUp i n m e)) \<le> 10
          \<and> 1 \<le> nm_instances (fst (scaleDown i n m e))
          \<and> nm_instances (fst (scaleDown i n m e)) \<le> 10)"
  using instances_in_range[of acts ns es config rnd]
  by (simp add: list_all_iff scaleUp_def scaleDown_def Let_def)

text \<open>A run in which a service is scaled up to two instances by the first tick.\<close>

theorem instances_between_1_and_10_witness:
  "map (\<lambda>p. (fst p, nm_instances (snd p)))
     (st_nodeMetrics
        (state (run [Start, IntervalFires]
                  (newEngine [sampleClient, sampleService] clientToService busyConfig sampleDraws))))
     = [(''c'', 1), (''s'', 2)]
   \<and> list_all (\<lambda>p. 1 \<le> nm_instances (snd p) \<and> nm_instances (snd p) \<le> 10)
       (st_nodeMetrics
          (state (run [Start, IntervalFires]
                    (newEngine [sampleClient, sampleService] clientToService busyConfig
                       sampleDraws))))"
proof -
  let ?e = "run [Start, IntervalFires]
              (newEngine [sampleClient, sampleService] clientToService busyConfig sampleDraws)"
  have 1: "map (\<lambda>p. (fst p, nm_instances (snd p))) (st_nodeMetrics (state ?e))
      = [(''c'', 1), (''s'', 2)]"
    by code_simp
  show ?thesis
    using instances_between_1_and_10[of "[Start, IntervalFires]" "[sampleClient, sampleService]"
        clientToService busyConfig sampleDraws] 1
    by (simp add: list_all_iff)
qed

subsection \<open>C6: guarded lifecycle calls\<close>

text \<open>
  \<open>start\<close> when the status is Running, \<open>pause\<close> when it is not Running, \<open>resume\<close> when it is
  not Paused and \<open>complete\<close> when the status is Completed return the engine unchanged.
\<close>

lemma guarded_calls_change_nothing:
  "(st_status (state e) = RUNNING \<longrightarrow> start e = e)
   \<and> (st_status (state e) \<noteq> RUNNING \<longrightarrow> pause e = e)
   \<and> (st_status (state e) \<noteq> PAUSED \<longrightarrow> resume e = e)"
  by (simp add: start_def pause_def resume_def Let_def prims)

lemma complete_guard: "st_status (state e) = COMPLETED \<Longrightarrow> complete e = e"
  by (simp add: complete_def Let_def prims)

text \<open>
  C6. The claim is that a lifecycle call whose guard is not met changes nothing, and it
  names \<open>stop\<close> on an engine whose status is Idle among them. \<^const>\<open>stop\<close> has no guard:
  on a new engine, whose status is Idle and whose log is empty, it sets the status to
  Stopped and appends a "Simulation stopped" event.
\<close>

theorem stop_from_idle_changes_state:
  "st_status (state (newEngine [sampleClient] clientToMissing sampleConfig sampleDraws)) = IDLE
   \<and> st_events (state (newEngine [sampleClient] clientToMissing sampleConfig sampleDraws)) = []
   \<and> st_status (state (stop (newEngine [sampleClient] clientToMissing sampleConfig sampleDraws)))
       = STOPPED
   \<and> map ev_message
       (st_events (state (stop (newEngine [sampleClient] clientToMissing sampleConfig sampleDraws))))
       = [SimulationStopped]
   \<and> stop (newEngine [sampleClient] clientToMissing sampleConfig sampleDraws)
       \<noteq> newEngine [sampleClient] clientToMissing sampleConfig sampleDraws"
proof -
  let ?e = "newEngine [sampleClient] clientToMissing sampleConfig sampleDraws"
  have 1: "st_status (state ?e) = IDLE \<and> st_events (state ?e) = []
      \<and> st_status (state (stop ?e)) = STOPPED
      \<and> map ev_message (st_events (state (stop ?e))) = [SimulationStopped]"
    by code_simp
  then have "st_status (state (stop ?e)) \<noteq> st_status (state ?e)" by simp
  then have "stop ?e \<noteq> ?e" by metis
  with 1 show ?thesis by simp
qed

subsection \<open>C7: a run without traffic\<close>

text \<open>
  C7 as stated fails in its last part: the recommendations for a missing cache and a
  missing load balancer do not depend on the bottlenecks. A graph of a client and a
  database gets three recommendations.
\<close>

theorem no_traffic_recommendations_counterexample:
  "cfg_requestsPerSecond idleConfig = 0
   \<and> sum_recommendations
       (res_summary
          (fst (getResult
                  (run [Start, IntervalFires]
                     (newEngine [sampleClient, sampleDatabase] clientToDatabase idleConfig
                        sampleDraws)))))
     = [recPerformingWell, recAddCache, recAddLoadBalancer]"
  by code_simp

text \<open>
  C7, amended. With \<open>requestsPerSecond = 0\<close> and a queue capacity that is not negative, for
  any graph and any run: \<open>totalRequests\<close> is 0, the bottleneck list is empty, and the
  recommendations are the "performing well" message, followed by the cache recommendation
  when the graph has no CACHE node and by the load-balancer recommendation when it has no
  LOAD_BALANCER node.
\<close>

theorem no_traffic_no_bottlenecks:
  "cfg_requestsPerSecond config = 0 \<and> 0 \<le> cfg_messageQueueDepth config \<longrightarrow>
     sm_totalRequests (st_systemMetrics (state (run acts (newEngine ns es config rnd)))) = 0
     \<and> sum_totalRequests (res_summary (fst (getResult (run acts (newEngine ns es config rnd))))) = 0
     \<and> sum_bottlenecks (res_summary (fst (getResult (run acts (newEngine ns es config rnd))))) = []
     \<and> sum_recommendations (res_summary (fst (getResult (run acts (newEngine ns es config rnd)))))
         = [recPerformingWell]
           @ (if list_ex (\<lambda>n. node_type n = CACHE) ns then [] else [recAddCache])
           @ (if list_ex (\<lambda>n. node_type n = LOAD_BALANCER) ns then [] else [recAddLoadBalancer])"
proof (intro impI, elim conjE)
  assume r: "cfg_requestsPerSecond config = 0" and d: "0 \<le> cfg_messageQueueDepth config"
  let ?e = "run acts (newEngine ns es config rnd)"
  have q: "quiet ?e" by (rule quiet_run[OF quiet_newEngine[OF r]])
  have fr: "nodes ?e = ns" "st_config (state ?e) = config"
    using run_frame[of acts "newEngine ns es config rnd"]
    by (simp_all add: newEngine_def initializeState_def)
  have b: "analyzeBottlenecks ?e = []"
    using analyzeBottlenecks_quiet[OF q] d fr by simp
  have t: "sm_totalRequests (st_systemMetrics (state ?e)) = 0"
    using q by (simp add: quiet_def)
  show "sm_totalRequests (st_systemMetrics (state ?e)) = 0
     \<and> sum_totalRequests (res_summary (fst (getResult ?e))) = 0
     \<and> sum_bottlenecks (res_summary (fst (getResult ?e))) = []
     \<and> sum_recommendations (res_summary (fst (getResult ?e)))
         = [recPerformingWell]
           @ (if list_ex (\<lambda>n. node_type n = CACHE) ns then [] else [recAddCache])
           @ (if list_ex (\<lambda>n. node_type n = LOAD_BALANCER) ns then [] else [recAddLoadBalancer])"
    using b t fr by (simp add: getResult_def Let_def generateRecommendations_def)
qed

theorem no_traffic_no_bottlenecks_witness:
  "cfg_requestsPerSecond idleConfig = 0 \<and> 0 \<le> cfg_messageQueueDepth idleConfig
   \<and> sum_bottlenecks
       (res_summary
          (fst (getResult
                  (run [Start, IntervalFires, IntervalFires]
                     (newEngine [sampleClient, sampleDatabase] clientToDatabase idleConfig
                        sampleDraws)))))
     = []
   \<and> sm_totalRequests
       (st_systemMetrics
          (state (run [Start, IntervalFires, IntervalFires]
                    (newEngine [sampleClient, sampleDatabase] clientToDatabase idleConfig
                       sampleDraws))))
     = 0"
proof -
  have 1: "cfg_requestsPerSecond idleConfig = 0 \<and> 0 \<le> cfg_messageQueueDepth idleConfig"
    by (simp add: idleConfig_def sampleConfig_def)
  show ?thesis
    using no_traffic_no_bottlenecks[of idleConfig "[Start, IntervalFires, IntervalFires]"
        "[sampleClient, sampleDatabase]" clientToDatabase sampleDraws] 1
    by simp
qed

subsection \<open>C8: the result is read, not made\<close>

text \<open>
  C8. After \<open>stop\<close>, and after completion, \<open>getResult\<close> leaves the engine as it found it, so
  a second call returns the same summary as the first and the event log is the one that
  \<open>stop\<close> (or completion) left. Equality of summaries is equality of their fields, under
  which a success rate that is NaN equals itself.
\<close>

theorem getResult_idempotent:
  "snd (getResult (stop e)) = stop e
   \<and> snd (getResult (snd (getResult (stop e)))) = stop e
   \<and> res_summary (fst (getResult (snd (getResult (stop e)))))
       = res_summary (fst (getResult (stop e)))
   \<and> st_events (state (snd (getResult (snd (getResult (stop e))))))
       = st_events (state (stop e))
   \<and> snd (getResult (snd (getResult (complete e)))) = complete e
   \<and> res_summary (fst (getResult (snd (getResult (complete e)))))
       = res_summary (fst (getResult (complete e)))"
  by (simp add: getResult_same)

subsection \<open>C9: queue depths only grow\<close>




subsection \<open>C10: the unguarded quotient and maximum of the summary\<close>




end
